theory Spec2Isabelle
  imports Main
begin

section \<open>Exceptions and the outcome of a browser call\<close>

text \<open>
  The client drives a browser through Selenium. Every call into the browser either
  returns or raises; all exceptions that occur are subclasses of Python's
  \<open>Exception\<close>. A call's outcome is a value of \<open>exn + 'a\<close>, \<open>Inl\<close> the exception
  raised. A call whose value is not used has outcome \<open>exn option\<close>, \<open>None\<close> when it
  returned normally.
\<close>

datatype exn =
    TimeoutException
  | StaleElementReferenceException
  | NoSuchElementException
  | TypeError
  | ValueError
  | AttributeError
  | OverflowError
  | OtherException

type_synonym 'a res = "exn + 'a"

text \<open>\<open>get_attribute\<close> raises, returns \<open>None\<close>, or returns a string.\<close>

type_synonym attr = "string option res"

section \<open>String helpers of the extractor\<close>

text \<open>\<open>str.lower()\<close> on the ASCII letters; Twitter handles are ASCII.\<close>

definition lower_char :: "char \<Rightarrow> char" where
  "lower_char c =
     (let n = (of_char c :: nat) in if 65 \<le> n \<and> n \<le> 90 then char_of (n + 32) else c)"

definition lower :: "string \<Rightarrow> string" where
  "lower s = map lower_char s"

text \<open>\<open>s.split("/")[-1]\<close>: the part of \<open>s\<close> after its last slash.\<close>

definition last_segment :: "string \<Rightarrow> string" where
  "last_segment s = rev (takeWhile (\<lambda>c. c \<noteq> CHR ''/'') (rev s))"

definition is_digit :: "char \<Rightarrow> bool" where
  "is_digit c = (let n = (of_char c :: nat) in 48 \<le> n \<and> n \<le> 57)"

definition is_word_char :: "char \<Rightarrow> bool" where
  "is_word_char c =
     (let n = (of_char c :: nat) in
        (48 \<le> n \<and> n \<le> 57) \<or> (65 \<le> n \<and> n \<le> 90) \<or> (97 \<le> n \<and> n \<le> 122) \<or> n = 95)"

text \<open>
  \<open>re.search(r"/status/(\d+)", tweet_url)\<close> followed by \<open>group(1)\<close>: the leftmost
  occurrence of \<open>/status/\<close> that is followed by a digit, and the longest run of digits
  there; \<open>None\<close> when there is no match.
\<close>

fun search_status_id :: "string \<Rightarrow> string option" where
  "search_status_id [] = None"
| "search_status_id (c # cs) =
     (let d = takeWhile is_digit (drop 8 (c # cs)) in
      if take 8 (c # cs) = ''/status/'' \<and> d \<noteq> [] then Some d else search_status_id cs)"

text \<open>\<open>needle in haystack\<close> on strings.\<close>

fun contains :: "string \<Rightarrow> string \<Rightarrow> bool" where
  "contains needle [] = (needle = [])"
| "contains needle (c # cs) = (take (length needle) (c # cs) = needle \<or> contains needle cs)"

text \<open>
  \<open>re.sub(r"&name=\w+", "&name=orig", img_url)\<close>: every non-overlapping match, from
  the left, is replaced.
\<close>

function sub_name :: "string \<Rightarrow> string" where
  "sub_name [] = []"
| "sub_name (c # cs) =
     (if take 6 (c # cs) = ''&name='' \<and> takeWhile is_word_char (drop 6 (c # cs)) \<noteq> []
      then ''&name=orig'' @ sub_name (dropWhile is_word_char (drop 6 (c # cs)))
      else c # sub_name cs)"
  by pat_completeness auto
termination
proof (relation "measure length")
  show "wf (measure length)" by simp
next
  fix c :: char and cs :: string
  have "length (dropWhile is_word_char (drop 6 (c # cs))) \<le> length (drop 6 (c # cs))"
    by (rule length_dropWhile_le)
  then show "(dropWhile is_word_char (drop 6 (c # cs)), c # cs) \<in> measure length"
    by simp
next
  fix c :: char and cs :: string
  show "(cs, c # cs) \<in> measure length" by simp
qed

section \<open>What the browser shows\<close>

text \<open>
  A datetime as Python has it: naive, or aware and then an instant, counted in
  microseconds since the epoch. Comparing a naive with an aware one raises \<open>TypeError\<close>.
\<close>

datatype pydatetime = Naive int | Aware int

text \<open>
  The \<open>datetime\<close> attribute of a \<open>time\<close> element, given by what
  \<open>datetime.fromisoformat(timestamp.replace("Z", "+00:00"))\<close> makes of its text:
  a \<open>ValueError\<close> or a datetime.
\<close>

datatype iso_text = Unparsable | Parsed pydatetime

text \<open>
  One \<open>article[data-testid='tweet']\<close> container at the moment it is read: the outcome
  of each query the extractor makes on it, and the reading of the clock at that moment.
  \<^item> \<open>status_links\<close>: \<open>find_elements("a[href*='/status/']")\<close> and each link's \<open>href\<close>;
  \<^item> \<open>user_name_blocks\<close>: \<open>find_elements("div[data-testid='User-Name']")\<close>, for each
    block its \<open>find_elements("a")\<close> and each link's \<open>href\<close>;
  \<^item> \<open>tweet_text_blocks\<close>: \<open>find_elements("div[data-testid='tweetText']")\<close> and the
    \<open>text\<close> of each;
  \<^item> \<open>time_elements\<close>: \<open>find_elements("time")\<close> and the \<open>datetime\<close> attribute of each,
    \<open>None\<close> when the attribute is missing or empty (both are falsy);
  \<^item> \<open>photo_containers\<close>: \<open>find_elements("div[data-testid='tweetPhoto']")\<close>, for each
    its \<open>find_elements("img")\<close> and the \<open>src\<close> of each image;
  \<^item> \<open>clock\<close>: \<open>datetime.now(timezone.utc)\<close>, in microseconds.
\<close>

record tweet_element =
  status_links :: "attr list res"
  user_name_blocks :: "attr list res list res"
  tweet_text_blocks :: "string res list res"
  time_elements :: "iso_text option res list res"
  photo_containers :: "attr list res list res"
  clock :: int

text \<open>
  One pass of the scroll loop: the two \<open>execute_script\<close> calls and the
  \<open>find_elements\<close> that follows them.
\<close>

record scroll_round =
  inner_height :: "exn option"
  scroll_by :: "exn option"
  new_tweet_elements :: "tweet_element list res"

text \<open>
  The browser session one account task meets: the outcome of every call the task makes,
  in the order of the source. \<open>login_marker\<close> is the wait for \<open>primaryColumn\<close> in
  \<open>_apply_cookies\<close>, \<open>tweet_wait\<close> the wait for the first tweet container,
  \<open>quit_outcome\<close> the outcome of \<open>driver.quit()\<close> in the \<open>finally\<close> clause.
\<close>

record browser =
  setup_driver :: "exn option"
  root_get :: "exn option"
  refresh :: "exn option"
  login_marker :: "exn option"
  page_get :: "exn option"
  tweet_wait :: "exn option"
  initial_elements :: "tweet_element list res"
  rounds :: "nat \<Rightarrow> scroll_round"
  quit_outcome :: "exn option"

text \<open>The calls made into the browser, in order.\<close>

datatype event =
    SetupDriver
  | GetPage string
  | Refresh
  | WaitLogin
  | WaitTweet
  | FindTweets
  | ExecuteScript
  | Quit

section \<open>The collected item\<close>

text \<open>
  \<open>tweet_data\<close> is a Python dict: an association list from key to value, in insertion
  order. A key that was never inserted is absent.
\<close>

datatype pyval = Str string | DateTime int | Bool bool | StrList "string list"

type_synonym tweet_data = "(string \<times> pyval) list"

section \<open>The client\<close>

text \<open>
  The cache key \<open>f"tweets_{hours}"\<close> is the constructor \<open>Tweets\<close> applied to the
  number of hours. Instants and durations are counted in microseconds, the resolution
  of Python's \<open>datetime\<close>.
\<close>

datatype cache_key = Tweets int

type_synonym cookie = "(string \<times> string) list"

record twitter_client =
  twitter_users :: "string list"
  cookies :: "cookie list option"
  tweets_cache :: "cache_key \<rightharpoonup> (string \<rightharpoonup> tweet_data list)"
  tweets_cache_time :: "cache_key \<rightharpoonup> int"

definition cache_ttl_minutes :: int where
  "cache_ttl_minutes = 5"

definition max_scrolls :: nat where
  "max_scrolls = 10"

definition seconds :: "int \<Rightarrow> int" where
  "seconds n = n * 1000000"

text \<open>
  \<open>timedelta(hours=h)\<close> is normalised to days, seconds and microseconds and raises
  \<open>OverflowError\<close> when the days, \<open>h // 24\<close>, exceed 999999999 in magnitude.
\<close>

definition timedelta_hours :: "int \<Rightarrow> int res" where
  "timedelta_hours h =
     (if - 999999999 \<le> h div 24 \<and> h div 24 \<le> 999999999
      then Inr (seconds (h * 3600)) else Inl OverflowError)"

text \<open>
  A datetime lies between 0001-01-01 00:00:00 and 9999-12-31 23:59:59.999999; an
  addition or subtraction whose result leaves this range raises \<open>OverflowError\<close>.
\<close>

definition datetime_min :: int where
  "datetime_min = - 62135596800000000"

definition datetime_max :: int where
  "datetime_max = 253402300799999999"

definition datetime_sub :: "int \<Rightarrow> int \<Rightarrow> int res" where
  "datetime_sub t delta =
     (if datetime_min \<le> t - delta \<and> t - delta \<le> datetime_max
      then Inr (t - delta) else Inl OverflowError)"

text \<open>\<open>datetime.now(timezone.utc) - timedelta(hours=hours)\<close>, \<open>now\<close> the clock reading.\<close>

definition start_time_of :: "int \<Rightarrow> int \<Rightarrow> int res" where
  "start_time_of now hours =
     (case timedelta_hours hours of
        Inl e \<Rightarrow> Inl e
      | Inr delta \<Rightarrow> datetime_sub now delta)"

section \<open>The page extractor: \<open>process_tweet_elements\<close>\<close>

text \<open>
  The repost check (its own \<open>try\<close>, whose handler only logs): the second link of the
  first \<open>User-Name\<close> block gives the author; the flag is set when the lower-cased author
  differs from the lower-cased queried name. Any exception leaves \<open>(False, None)\<close>, as
  does an \<open>href\<close> of \<open>None\<close>, on which \<open>split\<close> raises \<open>AttributeError\<close>.
\<close>

definition check_retweet :: "string \<Rightarrow> tweet_element \<Rightarrow> bool \<times> string option" where
  "check_retweet username el =
     (case user_name_blocks el of
        Inl e \<Rightarrow> (False, None)
      | Inr [] \<Rightarrow> (False, None)
      | Inr (block # _) \<Rightarrow>
         (case block of
            Inl e \<Rightarrow> (False, None)
          | Inr author_links \<Rightarrow>
             if 2 \<le> length author_links then
               (case author_links ! 1 of
                  Inl e \<Rightarrow> (False, None)
                | Inr None \<Rightarrow> (False, None)
                | Inr (Some author_href) \<Rightarrow>
                   (let author_username = lower (last_segment author_href) in
                    if author_username \<noteq> lower username
                    then (True, Some author_username) else (False, None)))
             else (False, None)))"

text \<open>\<open>tweet_text_element[0].text if tweet_text_element else ""\<close>.\<close>

definition tweet_text_of :: "tweet_element \<Rightarrow> string res" where
  "tweet_text_of el =
     (case tweet_text_blocks el of
        Inl e \<Rightarrow> Inl e
      | Inr [] \<Rightarrow> Inr []
      | Inr (t # _) \<Rightarrow> t)"

text \<open>
  The timestamp: the clock, unless the first \<open>time\<close> element has a non-empty
  \<open>datetime\<close> attribute, which is then parsed.
\<close>

definition created_at_of :: "tweet_element \<Rightarrow> pydatetime res" where
  "created_at_of el =
     (case time_elements el of
        Inl e \<Rightarrow> Inl e
      | Inr [] \<Rightarrow> Inr (Aware (clock el))
      | Inr (t # _) \<Rightarrow>
         (case t of
            Inl e \<Rightarrow> Inl e
          | Inr None \<Rightarrow> Inr (Aware (clock el))
          | Inr (Some Unparsable) \<Rightarrow> Inl ValueError
          | Inr (Some (Parsed d)) \<Rightarrow> Inr d))"

text \<open>
  The images (their own \<open>try\<close>, whose handler only logs): an exception stops the scan
  and keeps the URLs appended so far.
\<close>

fun scan_imgs :: "attr list \<Rightarrow> string list \<Rightarrow> string list \<times> exn option" where
  "scan_imgs [] image_urls = (image_urls, None)"
| "scan_imgs (img # imgs) image_urls =
     (case img of
        Inl e \<Rightarrow> (image_urls, Some e)
      | Inr None \<Rightarrow> scan_imgs imgs image_urls
      | Inr (Some img_url) \<Rightarrow>
         if img_url \<noteq> [] \<and> contains ''https://pbs.twimg.com/media'' img_url
         then scan_imgs imgs (image_urls @ [sub_name img_url])
         else scan_imgs imgs image_urls)"

fun scan_containers :: "attr list res list \<Rightarrow> string list \<Rightarrow> string list \<times> exn option" where
  "scan_containers [] image_urls = (image_urls, None)"
| "scan_containers (container # cs) image_urls =
     (case container of
        Inl e \<Rightarrow> (image_urls, Some e)
      | Inr img_elements \<Rightarrow>
         (case scan_imgs img_elements image_urls of
            (urls, Some e) \<Rightarrow> (urls, Some e)
          | (urls, None) \<Rightarrow> scan_containers cs urls))"

definition image_urls_of :: "tweet_element \<Rightarrow> string list" where
  "image_urls_of el =
     (case photo_containers el of
        Inl e \<Rightarrow> []
      | Inr image_containers \<Rightarrow> fst (scan_containers image_containers []))"

text \<open>
  The dict literal, and the \<open>original_author\<close> key added only when the flag is set and
  the author is truthy (not \<open>None\<close> and not the empty string).
\<close>

definition build_tweet_data ::
  "string \<Rightarrow> string \<Rightarrow> int \<Rightarrow> string list \<Rightarrow> string \<Rightarrow> bool \<Rightarrow> string option \<Rightarrow> tweet_data" where
  "build_tweet_data tweet_id tweet_text created_at image_urls tweet_url is_retweet original_author =
     [(''id'', Str tweet_id),
      (''text'', Str tweet_text),
      (''created_at'', DateTime created_at),
      (''image_urls'', StrList image_urls),
      (''url'', Str tweet_url),
      (''is_retweet'', Bool is_retweet)]
     @ (case original_author of
          Some a \<Rightarrow> if is_retweet \<and> a \<noteq> [] then [(''original_author'', Str a)] else []
        | None \<Rightarrow> [])"

text \<open>
  The body of the per-container \<open>try\<close> once the id is known and already in
  \<open>processed_ids\<close>: \<open>Inl\<close> when it raises, \<open>Inr None\<close> on \<open>continue\<close>, \<open>Inr (Some d)\<close>
  when \<open>d\<close> is appended.
\<close>

definition extract_fields ::
  "string \<Rightarrow> int \<Rightarrow> tweet_element \<Rightarrow> string \<Rightarrow> string \<Rightarrow> tweet_data option res" where
  "extract_fields username start_time el tweet_url tweet_id =
     (let (is_retweet, original_author) = check_retweet username el in
      case tweet_text_of el of
        Inl e \<Rightarrow> Inl e
      | Inr tweet_text \<Rightarrow>
         (case created_at_of el of
            Inl e \<Rightarrow> Inl e
          | Inr (Naive t) \<Rightarrow> Inl TypeError
          | Inr (Aware created_at) \<Rightarrow>
             if created_at < start_time then Inr None
             else Inr (Some (build_tweet_data tweet_id tweet_text created_at
                               (image_urls_of el) tweet_url is_retweet original_author))))"

text \<open>
  The whole per-container \<open>try\<close>, with the set \<open>processed_ids\<close> passed through. A
  \<open>tweet_url\<close> of \<open>None\<close> makes \<open>re.search\<close> raise \<open>TypeError\<close>.
\<close>

definition extract_element ::
  "string \<Rightarrow> int \<Rightarrow> string set \<Rightarrow> tweet_element \<Rightarrow> string set \<times> tweet_data option res" where
  "extract_element username start_time processed_ids el =
     (case status_links el of
        Inl e \<Rightarrow> (processed_ids, Inl e)
      | Inr [] \<Rightarrow> (processed_ids, Inr None)
      | Inr (link # _) \<Rightarrow>
         (case link of
            Inl e \<Rightarrow> (processed_ids, Inl e)
          | Inr None \<Rightarrow> (processed_ids, Inl TypeError)
          | Inr (Some tweet_url) \<Rightarrow>
             (case search_status_id tweet_url of
                None \<Rightarrow> (processed_ids, Inr None)
              | Some tweet_id \<Rightarrow>
                 if tweet_id \<in> processed_ids then (processed_ids, Inr None)
                 else (insert tweet_id processed_ids,
                       extract_fields username start_time el tweet_url tweet_id))))"

text \<open>
  The loop over the containers. Both handlers (\<open>StaleElementReferenceException\<close> and
  \<open>Exception\<close>) log and go on to the next container.
\<close>

fun process_tweet_elements ::
  "string \<Rightarrow> int \<Rightarrow> string set \<Rightarrow> tweet_element list \<Rightarrow> string set \<times> tweet_data list" where
  "process_tweet_elements username start_time processed_ids [] = (processed_ids, [])"
| "process_tweet_elements username start_time processed_ids (tweet_element # elements) =
     (case extract_element username start_time processed_ids tweet_element of
        (ids, Inr (Some tweet_data)) \<Rightarrow>
          (case process_tweet_elements username start_time ids elements of
             (ids', processed) \<Rightarrow> (ids', tweet_data # processed))
      | (ids, Inr None) \<Rightarrow> process_tweet_elements username start_time ids elements
      | (ids, Inl e) \<Rightarrow> process_tweet_elements username start_time ids elements)"

section \<open>The incremental collector: the scroll loop\<close>

text \<open>
  \<open>for scroll_count in range(max_scrolls)\<close>, with the number of passes left as the
  recursion argument. An exception leaves the loop; the pass that yields no new item
  breaks out of it.
\<close>

fun scroll_loop ::
  "string \<Rightarrow> int \<Rightarrow> (nat \<Rightarrow> scroll_round) \<Rightarrow> nat \<Rightarrow> nat \<Rightarrow> string set \<Rightarrow> tweet_data list
     \<Rightarrow> event list \<times> tweet_data list res" where
  "scroll_loop username start_time rs scroll_count 0 processed_ids user_tweets =
     ([], Inr user_tweets)"
| "scroll_loop username start_time rs scroll_count (Suc left) processed_ids user_tweets =
     (case inner_height (rs scroll_count) of
        Some e \<Rightarrow> ([ExecuteScript], Inl e)
      | None \<Rightarrow>
         (case scroll_by (rs scroll_count) of
            Some e \<Rightarrow> ([ExecuteScript, ExecuteScript], Inl e)
          | None \<Rightarrow>
             (case new_tweet_elements (rs scroll_count) of
                Inl e \<Rightarrow> ([ExecuteScript, ExecuteScript, FindTweets], Inl e)
              | Inr els \<Rightarrow>
                 (case process_tweet_elements username start_time processed_ids els of
                    (ids, new_tweets) \<Rightarrow>
                      if new_tweets = []
                      then ([ExecuteScript, ExecuteScript, FindTweets],
                            Inr (user_tweets @ new_tweets))
                      else
                        (case scroll_loop username start_time rs (Suc scroll_count) left ids
                                (user_tweets @ new_tweets) of
                           (tr, r) \<Rightarrow> ([ExecuteScript, ExecuteScript, FindTweets] @ tr, r))))))"

section \<open>The browser session manager\<close>

text \<open>
  \<open>_apply_cookies\<close>: \<open>False\<close> without cookies (\<open>None\<close> or an empty list); otherwise
  the root page is loaded, the cookies are added (each in its own \<open>try\<close>, whose handler
  only logs, so that this loop has no outcome of its own), the page is refreshed and the
  login marker awaited. Every exception, the timeout of the wait included, gives
  \<open>False\<close>. The second component lists the browser calls made.
\<close>

definition apply_cookies :: "twitter_client \<Rightarrow> browser \<Rightarrow> bool \<times> event list" where
  "apply_cookies self b =
     (if cookies self = None \<or> cookies self = Some [] then (False, [])
      else
        (case root_get b of
           Some e \<Rightarrow> (False, [GetPage ''https://twitter.com''])
         | None \<Rightarrow>
            (case refresh b of
               Some e \<Rightarrow> (False, [GetPage ''https://twitter.com'', Refresh])
             | None \<Rightarrow>
                (case login_marker b of
                   Some e \<Rightarrow> (False, [GetPage ''https://twitter.com'', Refresh, WaitLogin])
                 | None \<Rightarrow> (True, [GetPage ''https://twitter.com'', Refresh, WaitLogin])))))"

section \<open>The account task: \<open>_get_user_tweets\<close>\<close>

text \<open>
  The \<open>try\<close> block. The first component tells whether \<open>driver\<close> was assigned, the
  second lists the browser calls made, the third is the value returned (\<open>Inr\<close>) or the
  exception raised (\<open>Inl\<close>) inside the block. The wait for the first tweet has a handler
  of its own for \<open>TimeoutException\<close>, which returns the empty list.
\<close>

definition get_user_tweets_try ::
  "twitter_client \<Rightarrow> browser \<Rightarrow> string \<Rightarrow> int \<Rightarrow> bool \<times> event list \<times> tweet_data list res" where
  "get_user_tweets_try self b username start_time =
     (case setup_driver b of
        Some e \<Rightarrow> (False, [SetupDriver], Inl e)
      | None \<Rightarrow>
         (case apply_cookies self b of
            (False, tr) \<Rightarrow> (True, SetupDriver # tr, Inr [])
          | (True, tr) \<Rightarrow>
             (let url = ''https://twitter.com/'' @ username in
              case page_get b of
                Some e \<Rightarrow> (True, SetupDriver # tr @ [GetPage url], Inl e)
              | None \<Rightarrow>
                 (case tweet_wait b of
                    Some e \<Rightarrow>
                      (True, SetupDriver # tr @ [GetPage url, WaitTweet],
                       if e = TimeoutException then Inr [] else Inl e)
                  | None \<Rightarrow>
                     (case initial_elements b of
                        Inl e \<Rightarrow>
                          (True, SetupDriver # tr @ [GetPage url, WaitTweet, FindTweets], Inl e)
                      | Inr tweet_elements \<Rightarrow>
                         (case process_tweet_elements username start_time {} tweet_elements of
                            (ids, initial_tweets) \<Rightarrow>
                              (case scroll_loop username start_time (rounds b) 0 max_scrolls ids
                                      initial_tweets of
                                 (tr', r) \<Rightarrow>
                                   (True,
                                    SetupDriver # tr @ [GetPage url, WaitTweet, FindTweets] @ tr',
                                    r))))))))"

text \<open>
  The handlers and the \<open>finally\<close> clause: both \<open>except\<close> clauses return the empty list,
  and \<open>driver.quit()\<close> is called when \<open>driver\<close> was assigned. The first component is
  the value on its way to the caller, the second the browser calls made, the call of
  \<open>quit\<close> included.
\<close>

definition get_user_tweets ::
  "twitter_client \<Rightarrow> browser \<Rightarrow> string \<Rightarrow> int \<Rightarrow> tweet_data list \<times> event list" where
  "get_user_tweets self b username start_time =
     (case get_user_tweets_try self b username start_time of
        (driver, tr, r) \<Rightarrow>
          ((case r of Inl e \<Rightarrow> [] | Inr user_tweets \<Rightarrow> user_tweets),
           (if driver then tr @ [Quit] else tr)))"

text \<open>
  The task as the orchestrator awaits it. \<open>driver.quit()\<close> is called exactly when
  \<open>_setup_driver\<close> returned a handle; it is not guarded, so when it raises, its
  exception leaves the \<open>finally\<close> clause in place of the value and reaches the
  \<open>await\<close>.
\<close>

definition user_task ::
  "twitter_client \<Rightarrow> browser \<Rightarrow> string \<Rightarrow> int \<Rightarrow> tweet_data list res \<times> event list" where
  "user_task self b username start_time =
     (case get_user_tweets self b username start_time of
        (tweets, tr) \<Rightarrow>
          (case (setup_driver b, quit_outcome b) of
             (None, Some e) \<Rightarrow> (Inl e, tr)
           | _ \<Rightarrow> (Inr tweets, tr)))"

section \<open>The orchestrator and the cache: \<open>get_recent_tweets\<close>\<close>

text \<open>
  \<open>{username.lower(): [] for username in self.config.twitter_users}\<close>.
\<close>

definition empty_by_user :: "string list \<Rightarrow> (string \<rightharpoonup> tweet_data list)" where
  "empty_by_user users = foldl (\<lambda>m username. m(lower username \<mapsto> [])) Map.empty users"

text \<open>
  The loop over the accounts. Each task is awaited before the next is submitted, so the
  tasks run one after the other; \<open>world i\<close> is the browser session that the task of
  the \<open>i\<close>-th account meets. An exception that leaves a task leaves the loop.
\<close>

fun fetch_users ::
  "twitter_client \<Rightarrow> (nat \<Rightarrow> browser) \<Rightarrow> int \<Rightarrow> nat \<Rightarrow> string list
     \<Rightarrow> (string \<rightharpoonup> tweet_data list)
     \<Rightarrow> (string \<rightharpoonup> tweet_data list) res \<times> event list" where
  "fetch_users self world start_time i [] tweets_by_user = (Inr tweets_by_user, [])"
| "fetch_users self world start_time i (username # users) tweets_by_user =
     (case user_task self (world i) username start_time of
        (Inl e, tr) \<Rightarrow> (Inl e, tr)
      | (Inr tweets, tr) \<Rightarrow>
          (case fetch_users self world start_time (Suc i) users
                  (tweets_by_user(lower username \<mapsto> tweets)) of
             (r, tr') \<Rightarrow> (r, tr @ tr')))"

text \<open>
  The cache test: both dicts have the key and the entry is younger than the TTL; then
  the cached mapping is the answer. \<open>total_seconds()\<close> is the difference of the two
  instants in microseconds divided by \<open>10^6\<close>, so the comparison with
  \<open>cache_ttl_minutes * 60\<close> seconds is the comparison of the microsecond counts.
\<close>

definition cache_lookup ::
  "twitter_client \<Rightarrow> int \<Rightarrow> int \<Rightarrow> (string \<rightharpoonup> tweet_data list) option" where
  "cache_lookup self hours current_time =
     (case (tweets_cache self (Tweets hours), tweets_cache_time self (Tweets hours)) of
        (Some cached, Some fetched_at) \<Rightarrow>
          if current_time - fetched_at < seconds (cache_ttl_minutes * 60)
          then Some cached else None
      | _ \<Rightarrow> None)"

text \<open>
  The run after a miss: the mapping starts with every key, \<open>start_time\<close> is computed
  (outside every \<open>try\<close>, so its \<open>OverflowError\<close> reaches the caller), the accounts are
  fetched, and both cache dicts are written under the key of this call. An exception
  leaves the client as it was.
\<close>

definition collect_and_store ::
  "twitter_client \<Rightarrow> int \<Rightarrow> int \<Rightarrow> int \<Rightarrow> (nat \<Rightarrow> browser)
     \<Rightarrow> twitter_client \<times> (string \<rightharpoonup> tweet_data list) res \<times> event list" where
  "collect_and_store self hours current_time now world =
     (case start_time_of now hours of
        Inl e \<Rightarrow> (self, Inl e, [])
      | Inr start_time \<Rightarrow>
         (case fetch_users self world start_time 0 (twitter_users self)
                 (empty_by_user (twitter_users self)) of
            (Inl e, tr) \<Rightarrow> (self, Inl e, tr)
          | (Inr tweets_by_user, tr) \<Rightarrow>
              (self\<lparr>tweets_cache := (tweets_cache self)(Tweets hours \<mapsto> tweets_by_user),
                    tweets_cache_time :=
                      (tweets_cache_time self)(Tweets hours \<mapsto> current_time)\<rparr>,
               Inr tweets_by_user, tr)))"

text \<open>
  \<open>get_recent_tweets\<close>: \<open>current_time\<close> is the clock read on entry, \<open>now\<close> the clock
  read for \<open>start_time\<close>. The result is the client after the call, the mapping
  returned or the exception raised, and the browser calls made.
\<close>

definition get_recent_tweets ::
  "twitter_client \<Rightarrow> int \<Rightarrow> int \<Rightarrow> int \<Rightarrow> (nat \<Rightarrow> browser)
     \<Rightarrow> twitter_client \<times> (string \<rightharpoonup> tweet_data list) res \<times> event list" where
  "get_recent_tweets self hours current_time now world =
     (case cache_lookup self hours current_time of
        Some cached \<Rightarrow> (self, Inr cached, [])
      | None \<Rightarrow> collect_and_store self hours current_time now world)"

section \<open>Reading an item and a container\<close>

text \<open>The value under a key of a collected item, \<open>None\<close> when the key is absent.\<close>

definition item_id :: "tweet_data \<Rightarrow> pyval option" where
  "item_id d = map_of d ''id''"

text \<open>
  The id the extractor reads from a container: the match of the pattern in the \<open>href\<close>
  of its first status link, if all of that succeeds.
\<close>

definition element_id :: "tweet_element \<Rightarrow> string option" where
  "element_id el =
     (case status_links el of
        Inr (Inr (Some tweet_url) # _) \<Rightarrow> search_status_id tweet_url
      | _ \<Rightarrow> None)"

text \<open>
  Every mapping in the cache has exactly the lower-cased configured accounts as keys.
\<close>

definition cache_complete :: "twitter_client \<Rightarrow> bool" where
  "cache_complete self =
     (\<forall>k m. tweets_cache self k = Some m \<longrightarrow> dom m = lower ` set (twitter_users self))"

text \<open>The item has a \<open>created_at\<close> that is not before \<open>start_time\<close>.\<close>

definition in_window :: "int \<Rightarrow> tweet_data \<Rightarrow> bool" where
  "in_window start_time d =
     (case map_of d ''created_at'' of Some (DateTime t) \<Rightarrow> start_time \<le> t | _ \<Rightarrow> False)"

text \<open>
  Every mapping in the cache was collected by a run of \<open>runs\<close>, a set of pairs of a
  window in hours and the \<open>start_time\<close> of a run for that window: all its items are
  not before that \<open>start_time\<close>.
\<close>

definition cache_from_runs :: "(int \<times> int) set \<Rightarrow> twitter_client \<Rightarrow> bool" where
  "cache_from_runs runs self =
     (\<forall>hours m. tweets_cache self (Tweets hours) = Some m \<longrightarrow>
        (\<exists>start_time. (hours, start_time) \<in> runs \<and>
           (\<forall>k ts. m k = Some ts \<longrightarrow> (\<forall>d \<in> set ts. in_window start_time d))))"

text \<open>
  The batches of containers a task may read: batch \<open>0\<close> is the first extraction, batch
  \<open>k + 1\<close> the extraction after the scroll with index \<open>k\<close>.
\<close>

definition batch :: "browser \<Rightarrow> nat \<Rightarrow> tweet_element list res" where
  "batch b k = (case k of 0 \<Rightarrow> initial_elements b | Suc j \<Rightarrow> new_tweet_elements (rounds b j))"

section \<open>Fixtures\<close>

text \<open>
  A container with one status link and a timestamp, and nothing else; a container that
  also shows its author; a scroll pass without failures; a session in which every call
  up to the first extraction succeeds; a client with one cookie and an empty cache.
\<close>

definition plain_tweet :: "string \<Rightarrow> int \<Rightarrow> tweet_element" where
  "plain_tweet href ts =
     \<lparr>status_links = Inr [Inr (Some href)],
      user_name_blocks = Inr [],
      tweet_text_blocks = Inr [],
      time_elements = Inr [Inr (Some (Parsed (Aware ts)))],
      photo_containers = Inr [],
      clock = ts\<rparr>"

definition authored_tweet :: "string \<Rightarrow> string \<Rightarrow> int \<Rightarrow> tweet_element" where
  "authored_tweet href author_href ts =
     (plain_tweet href ts)
       \<lparr>user_name_blocks := Inr [Inr [Inr (Some author_href), Inr (Some author_href)]]\<rparr>"

definition quiet_round :: "tweet_element list \<Rightarrow> scroll_round" where
  "quiet_round els = \<lparr>inner_height = None, scroll_by = None, new_tweet_elements = Inr els\<rparr>"

definition open_page :: "tweet_element list \<Rightarrow> (nat \<Rightarrow> scroll_round) \<Rightarrow> browser" where
  "open_page els rs =
     \<lparr>setup_driver = None, root_get = None, refresh = None, login_marker = None,
      page_get = None, tweet_wait = None, initial_elements = Inr els, rounds = rs,
      quit_outcome = None\<rparr>"

definition logged_in_client :: "string list \<Rightarrow> twitter_client" where
  "logged_in_client users =
     \<lparr>twitter_users = users,
      cookies = Some [[(''name'', ''auth_token'')]],
      tweets_cache = Map.empty,
      tweets_cache_time = Map.empty\<rparr>"

text \<open>
  The scroll passes of the mocked extractor: ids 1 and 2 after the first scroll, nothing
  after the second, and a new id 3 on every later pass.
\<close>

definition three_rounds :: "nat \<Rightarrow> scroll_round" where
  "three_rounds k =
     (if k = 0 then quiet_round [plain_tweet ''https://twitter.com/u/status/1'' 100,
                                 plain_tweet ''https://twitter.com/u/status/2'' 101]
      else if k = 1 then quiet_round []
      else quiet_round [plain_tweet ''https://twitter.com/u/status/3'' 102])"

text \<open>
  Two sessions: the first account's page load times out, the second account's page shows
  the mocked extractor's tweets.
\<close>

definition two_account_world :: "nat \<Rightarrow> browser" where
  "two_account_world i =
     (if i = 0
      then (open_page [] three_rounds)\<lparr>page_get := Some TimeoutException\<rparr>
      else open_page [plain_tweet ''https://twitter.com/u/status/1'' 100] three_rounds)"

text \<open>
  Scroll passes that show nothing; scroll passes that show id 1 again within the window,
  together with id 2 on the first pass; a container without a \<open>time\<close> element; a world
  in which every session shows the same single tweet; a client whose cache holds an
  entry for 24 hours, fetched at instant 1000.
\<close>

definition idle_rounds :: "nat \<Rightarrow> scroll_round" where
  "idle_rounds k = quiet_round []"

definition rerender_rounds :: "nat \<Rightarrow> scroll_round" where
  "rerender_rounds k =
     (if k = 0 then quiet_round [plain_tweet ''https://twitter.com/u/status/1'' 100,
                                 plain_tweet ''https://twitter.com/u/status/2'' 101]
      else quiet_round [plain_tweet ''https://twitter.com/u/status/1'' 100])"

definition untimed_tweet :: "string \<Rightarrow> int \<Rightarrow> tweet_element" where
  "untimed_tweet href now = (plain_tweet href now)\<lparr>time_elements := Inr []\<rparr>"

definition single_world :: "nat \<Rightarrow> browser" where
  "single_world i = open_page [plain_tweet ''https://twitter.com/u/status/1'' 100] idle_rounds"


text \<open>
  A world in which no tweet appears and \<open>driver.quit()\<close> raises; a client whose cache
  holds, for 24 hours, a mapping with one item, fetched at instant 1000.
\<close>

definition quit_fails_world :: "nat \<Rightarrow> browser" where
  "quit_fails_world i =
     (open_page [] idle_rounds)
       \<lparr>tweet_wait := Some TimeoutException, quit_outcome := Some OtherException\<rparr>"

definition stocked_client :: twitter_client where
  "stocked_client =
     (logged_in_client [''u''])
       \<lparr>tweets_cache :=
          [Tweets 24 \<mapsto>
             [''u'' \<mapsto> [build_tweet_data ''1'' [] 100 [] ''https://twitter.com/u/status/1''
                          False None]]],
        tweets_cache_time := [Tweets 24 \<mapsto> 1000]\<rparr>"

section \<open>Ids: what one container and one batch do to the seen-set\<close>

lemma item_id_build:
  "item_id (build_tweet_data i t c im u r oa) = Some (Str i)"
  by (simp add: item_id_def build_tweet_data_def)

lemma extract_fields_id:
  "extract_fields username start_time el tweet_url tweet_id = Inr (Some d)
     \<Longrightarrow> item_id d = Some (Str tweet_id)"
  by (auto simp: extract_fields_def item_id_build
           split: prod.splits sum.splits pydatetime.splits if_splits)

lemma extract_element_mono:
  "extract_element username start_time ids el = (ids', r) \<Longrightarrow> ids \<subseteq> ids'"
  by (auto simp: extract_element_def split: sum.splits list.splits option.splits if_splits)

lemma extract_element_accept:
  "extract_element username start_time ids el = (ids', Inr (Some d)) \<Longrightarrow>
     \<exists>i. item_id d = Some (Str i) \<and> i \<notin> ids \<and> ids' = insert i ids"
  by (auto simp: extract_element_def
           split: sum.splits list.splits option.splits if_splits dest: extract_fields_id)

lemma process_tweet_elements_ids:
  "process_tweet_elements username start_time ids els = (ids', out) \<Longrightarrow>
     ids \<subseteq> ids' \<and> distinct (map item_id out) \<and>
     (\<forall>d \<in> set out. \<exists>i. item_id d = Some (Str i) \<and> i \<in> ids' \<and> i \<notin> ids)"
proof (induction els arbitrary: ids ids' out)
  case Nil
  then show ?case by simp
next
  case (Cons el els)
  obtain ids1 r where e: "extract_element username start_time ids el = (ids1, r)"
    by (cases "extract_element username start_time ids el")
  have m: "ids \<subseteq> ids1" using e by (rule extract_element_mono)
  show ?case
  proof (cases r)
    case (Inl x)
    with Cons.prems e
    have "process_tweet_elements username start_time ids1 els = (ids', out)" by simp
    from Cons.IH[OF this] m show ?thesis by blast
  next
    case (Inr o1)
    show ?thesis
    proof (cases o1)
      case None
      with Inr Cons.prems e
      have "process_tweet_elements username start_time ids1 els = (ids', out)" by simp
      from Cons.IH[OF this] m show ?thesis by blast
    next
      case (Some d)
      obtain ids2 out2 where
        p: "process_tweet_elements username start_time ids1 els = (ids2, out2)"
        by (cases "process_tweet_elements username start_time ids1 els")
      with Some Inr Cons.prems e have o: "ids' = ids2" "out = d # out2" by simp_all
      from e Some Inr obtain i where
        i: "item_id d = Some (Str i)" "i \<notin> ids" "ids1 = insert i ids"
        using extract_element_accept by blast
      from Cons.IH[OF p] have ih: "ids1 \<subseteq> ids2" "distinct (map item_id out2)"
        "\<forall>d \<in> set out2. \<exists>j. item_id d = Some (Str j) \<and> j \<in> ids2 \<and> j \<notin> ids1" by auto
      have "item_id d \<notin> item_id ` set out2"
      proof
        assume "item_id d \<in> item_id ` set out2"
        then obtain d' where d': "d' \<in> set out2" "item_id d' = item_id d" by auto
        with ih(3) obtain j where "item_id d' = Some (Str j)" "j \<notin> ids1" by blast
        with d' i show False by simp
      qed
      moreover have
        "\<forall>d' \<in> set (d # out2). \<exists>j. item_id d' = Some (Str j) \<and> j \<in> ids2 \<and> j \<notin> ids"
        using ih(1) ih(3) i by auto
      ultimately show ?thesis using ih(1,2) i(3) o by auto
    qed
  qed
qed

lemma scroll_loop_distinct:
  "scroll_loop username start_time rs k n ids acc = (tr, Inr ts) \<Longrightarrow>
   distinct (map item_id acc) \<Longrightarrow>
   \<forall>d \<in> set acc. \<exists>i. item_id d = Some (Str i) \<and> i \<in> ids \<Longrightarrow>
   distinct (map item_id ts)"
proof (induction n arbitrary: k ids acc tr)
  case 0
  then show ?case by simp
next
  case (Suc n)
  from Suc.prems(1) obtain els where
    els: "new_tweet_elements (rs k) = Inr els"
    by (auto split: option.splits sum.splits)
  obtain ids1 new where p: "process_tweet_elements username start_time ids els = (ids1, new)"
    by (cases "process_tweet_elements username start_time ids els")
  from process_tweet_elements_ids[OF p]
  have f: "ids \<subseteq> ids1" "distinct (map item_id new)"
    "\<forall>d \<in> set new. \<exists>i. item_id d = Some (Str i) \<and> i \<in> ids1 \<and> i \<notin> ids" by auto
  have disj: "item_id ` set acc \<inter> item_id ` set new = {}"
  proof (rule ccontr)
    assume "item_id ` set acc \<inter> item_id ` set new \<noteq> {}"
    then obtain a c where ac: "a \<in> set acc" "c \<in> set new" "item_id a = item_id c" by auto
    from Suc.prems(3) ac(1) obtain i where i: "item_id a = Some (Str i)" "i \<in> ids" by blast
    from f(3) ac(2) obtain j where j: "item_id c = Some (Str j)" "j \<notin> ids" by blast
    from i j ac(3) show False by simp
  qed
  have d: "distinct (map item_id (acc @ new))"
    using Suc.prems(2) f(2) disj by simp
  have s: "\<forall>d \<in> set (acc @ new). \<exists>i. item_id d = Some (Str i) \<and> i \<in> ids1"
  proof
    fix x assume "x \<in> set (acc @ new)"
    then consider "x \<in> set acc" | "x \<in> set new" by auto
    then show "\<exists>i. item_id x = Some (Str i) \<and> i \<in> ids1"
    proof cases
      case 1
      with Suc.prems(3) obtain i where "item_id x = Some (Str i)" "i \<in> ids" by blast
      with f(1) show ?thesis by blast
    next
      case 2
      with f(3) show ?thesis by blast
    qed
  qed
  show ?case
  proof (cases "new = []")
    case True
    with Suc.prems(1) els p have "ts = acc @ new"
      by (auto split: option.splits)
    with d show ?thesis by simp
  next
    case False
    with Suc.prems(1) els p obtain tr' where
      "scroll_loop username start_time rs (Suc k) n ids1 (acc @ new) = (tr', Inr ts)"
      by (auto split: option.splits prod.splits)
    from Suc.IH[OF this d s] show ?thesis .
  qed
qed

text \<open>
  When the \<open>try\<close> block returns a non-empty list, it has run the first extraction and the
  scroll loop.
\<close>

lemma get_user_tweets_try_loop:
  assumes "get_user_tweets_try self b username start_time = (drv, tr, Inr ts)" "ts \<noteq> []"
  shows "\<exists>els ids initial tr'.
           initial_elements b = Inr els \<and>
           process_tweet_elements username start_time {} els = (ids, initial) \<and>
           scroll_loop username start_time (rounds b) 0 max_scrolls ids initial = (tr', Inr ts)"
  using assms
  by (auto simp: get_user_tweets_try_def Let_def
           split: option.splits prod.splits sum.splits if_splits bool.splits)

lemma get_user_tweets_try_distinct:
  assumes "get_user_tweets_try self b username start_time = (drv, tr, Inr ts)"
  shows "distinct (map item_id ts)"
proof (cases "ts = []")
  case True
  then show ?thesis by simp
next
  case False
  with assms get_user_tweets_try_loop obtain els ids initial tr' where
    p: "process_tweet_elements username start_time {} els = (ids, initial)" and
    l: "scroll_loop username start_time (rounds b) 0 max_scrolls ids initial = (tr', Inr ts)"
    by blast
  from process_tweet_elements_ids[OF p]
  have "distinct (map item_id initial)"
    "\<forall>d \<in> set initial. \<exists>i. item_id d = Some (Str i) \<and> i \<in> ids"
    by auto
  with l show ?thesis by (rule scroll_loop_distinct)
qed

lemma seen_id_skipped:
  "status_links el = Inr (Inr (Some tweet_url) # links) \<Longrightarrow>
   search_status_id tweet_url = Some tweet_id \<Longrightarrow> tweet_id \<in> processed_ids \<Longrightarrow>
   extract_element username start_time processed_ids el = (processed_ids, Inr None)"
  by (simp add: extract_element_def)

section \<open>Uniqueness of ids in a result\<close>

text \<open>
  C3. Within one account's collection run every item id occurs at most once in the
  returned sequence; and in every extraction, a container whose extracted id is already
  in the seen-set is skipped, with the seen-set unchanged, whatever its other fields
  are.
\<close>

theorem C3_ids_unique:
  "distinct (map item_id (fst (get_user_tweets self b username start_time)))
   \<and> (\<forall>el tweet_url links tweet_id processed_ids.
        status_links el = Inr (Inr (Some tweet_url) # links) \<and>
        search_status_id tweet_url = Some tweet_id \<and> tweet_id \<in> processed_ids
        \<longrightarrow> extract_element username start_time processed_ids el = (processed_ids, Inr None))"
proof -
  obtain drv tr r where t: "get_user_tweets_try self b username start_time = (drv, tr, r)"
    by (cases "get_user_tweets_try self b username start_time")
  have "distinct (map item_id (fst (get_user_tweets self b username start_time)))"
  proof (cases r)
    case (Inl e)
    with t show ?thesis by (simp add: get_user_tweets_def)
  next
    case (Inr ts)
    with t get_user_tweets_try_distinct[of self b username start_time drv tr ts]
    show ?thesis by (simp add: get_user_tweets_def)
  qed
  then show ?thesis by (simp add: seen_id_skipped)
qed

theorem C3_ids_unique_witness:
  "extract_element ''u'' 50 {''1''} (plain_tweet ''https://twitter.com/u/status/1'' 5)
     = ({''1''}, Inr None)
   \<and> distinct (map item_id (fst (get_user_tweets (logged_in_client [''u''])
         (open_page [plain_tweet ''https://twitter.com/u/status/1'' 100] three_rounds)
         ''u'' 50)))"
proof -
  have "status_links (plain_tweet ''https://twitter.com/u/status/1'' 5)
          = Inr (Inr (Some ''https://twitter.com/u/status/1'') # [])
        \<and> search_status_id ''https://twitter.com/u/status/1'' = Some ''1''
        \<and> ''1'' \<in> {''1''}"
    by (simp add: plain_tweet_def is_digit_def)
  with C3_ids_unique[of "logged_in_client [''u'']"
         "open_page [plain_tweet ''https://twitter.com/u/status/1'' 100] three_rounds"
         "''u''" 50]
  show ?thesis by blast
qed

section \<open>The mocked extractor\<close>

lemma extract_plain_tweet:
  "extract_element username start_time ids (plain_tweet href ts) =
     (case search_status_id href of
        None \<Rightarrow> (ids, Inr None)
      | Some i \<Rightarrow>
          if i \<in> ids then (ids, Inr None)
          else (insert i ids,
                if ts < start_time then Inr None
                else Inr (Some (build_tweet_data i [] ts [] href False None))))"
  by (simp add: extract_element_def extract_fields_def plain_tweet_def check_retweet_def
        tweet_text_of_def created_at_of_def image_urls_of_def split: option.splits)

text \<open>
  C5. The extractor shows id 1 at first, ids 1 and 2 after the first scroll and nothing
  after the second, all within the window. Whatever later scrolls would show, the task
  returns the items with ids 1 and 2 in that order and extracts exactly three times
  (\<open>FindTweets\<close> occurs three times among the browser calls): it stops at the pass
  that yields no new item, not after \<open>max_scrolls\<close> passes.
\<close>

theorem C5_idle_termination:
  assumes "cookies self = Some (c # cs)"
    and "start_time \<le> t0" and "start_time \<le> t0'" and "start_time \<le> t1"
    and "rs 0 = quiet_round [plain_tweet ''https://twitter.com/u/status/1'' t0',
                             plain_tweet ''https://twitter.com/u/status/2'' t1]"
    and "rs 1 = quiet_round []"
  shows "get_user_tweets self
           (open_page [plain_tweet ''https://twitter.com/u/status/1'' t0] rs) username start_time
         = ([build_tweet_data ''1'' [] t0 [] ''https://twitter.com/u/status/1'' False None,
             build_tweet_data ''2'' [] t1 [] ''https://twitter.com/u/status/2'' False None],
            [SetupDriver, GetPage ''https://twitter.com'', Refresh, WaitLogin,
             GetPage (''https://twitter.com/'' @ username), WaitTweet, FindTweets,
             ExecuteScript, ExecuteScript, FindTweets,
             ExecuteScript, ExecuteScript, FindTweets, Quit])
         \<and> map item_id (fst (get_user_tweets self
               (open_page [plain_tweet ''https://twitter.com/u/status/1'' t0] rs)
               username start_time)) = [Some (Str ''1''), Some (Str ''2'')]
         \<and> count_list (snd (get_user_tweets self
               (open_page [plain_tweet ''https://twitter.com/u/status/1'' t0] rs)
               username start_time)) FindTweets = 3"
proof -
  let ?d1 = "build_tweet_data ''1'' [] t0 [] ''https://twitter.com/u/status/1'' False None"
  let ?d2 = "build_tweet_data ''2'' [] t1 [] ''https://twitter.com/u/status/2'' False None"
  have sl: "scroll_loop username start_time rs 0 max_scrolls {''1''} [?d1]
        = ([ExecuteScript, ExecuteScript, FindTweets, ExecuteScript, ExecuteScript, FindTweets],
           Inr [?d1, ?d2])"
    using assms(2-)
    by (simp add: max_scrolls_def eval_nat_numeral quiet_round_def extract_plain_tweet
          is_digit_def)
  have r: "get_user_tweets self
           (open_page [plain_tweet ''https://twitter.com/u/status/1'' t0] rs) username start_time
         = ([?d1, ?d2],
            [SetupDriver, GetPage ''https://twitter.com'', Refresh, WaitLogin,
             GetPage (''https://twitter.com/'' @ username), WaitTweet, FindTweets,
             ExecuteScript, ExecuteScript, FindTweets,
             ExecuteScript, ExecuteScript, FindTweets, Quit])"
    using assms(1,2) sl
    by (simp add: get_user_tweets_def get_user_tweets_try_def open_page_def apply_cookies_def
          extract_plain_tweet is_digit_def)
  show ?thesis
    unfolding r by (simp add: item_id_build)
qed

theorem C5_idle_termination_witness:
  "map item_id (fst (get_user_tweets (logged_in_client [''u''])
       (open_page [plain_tweet ''https://twitter.com/u/status/1'' 100] three_rounds) ''u'' 50))
     = [Some (Str ''1''), Some (Str ''2'')]
   \<and> count_list (snd (get_user_tweets (logged_in_client [''u''])
       (open_page [plain_tweet ''https://twitter.com/u/status/1'' 100] three_rounds) ''u'' 50))
       FindTweets = 3"
proof -
  have h1: "cookies (logged_in_client [''u'']) = Some ([(''name'', ''auth_token'')] # [])"
    by (simp add: logged_in_client_def)
  have h2: "three_rounds 0 = quiet_round [plain_tweet ''https://twitter.com/u/status/1'' 100,
                             plain_tweet ''https://twitter.com/u/status/2'' 101]"
    by (simp add: three_rounds_def)
  have h3: "three_rounds 1 = quiet_round []"
    by (simp add: three_rounds_def)
  have h4: "(50::int) \<le> 100" "(50::int) \<le> 101" by simp_all
  from C5_idle_termination[OF h1 h4(1) h4(1) h4(2) h2 h3, of "''u''"]
  show ?thesis by blast
qed

section \<open>The browser calls of a task\<close>

lemma scroll_loop_no_quit:
  "scroll_loop username start_time rs k n ids acc = (tr, r) \<Longrightarrow> Quit \<notin> set tr"
proof (induction n arbitrary: k ids acc tr r)
  case 0
  then show ?case by simp
next
  case (Suc n)
  from Suc.prems show ?case
    by (auto split: option.splits sum.splits prod.splits if_splits dest: Suc.IH)
qed

lemma apply_cookies_no_quit:
  "apply_cookies self b = (ok, tr) \<Longrightarrow> Quit \<notin> set tr"
  by (auto simp: apply_cookies_def split: if_splits option.splits)

lemma get_user_tweets_try_trace:
  assumes "get_user_tweets_try self b username start_time = (drv, tr, r)"
  shows "drv = (setup_driver b = None) \<and> Quit \<notin> set tr \<and> (\<exists>tr'. tr = SetupDriver # tr')"
  using assms
  by (auto simp: get_user_tweets_try_def Let_def
           split: option.splits prod.splits sum.splits if_splits bool.splits
           dest: scroll_loop_no_quit apply_cookies_no_quit)

text \<open>
  C7. Once \<open>_setup_driver\<close> has returned a handle, the task's browser calls end with
  \<open>Quit\<close>, and \<open>Quit\<close> occurs nowhere before: on every exit path of the task (normal
  return, the page-load timeout, a rejected session, any exception) the handle is torn
  down last, before the task returns.
\<close>

theorem C7_driver_quit:
  assumes "setup_driver b = None"
  shows "\<exists>tr. snd (get_user_tweets self b username start_time) = SetupDriver # tr @ [Quit]
              \<and> Quit \<notin> set tr"
proof -
  obtain drv tr r where t: "get_user_tweets_try self b username start_time = (drv, tr, r)"
    by (cases "get_user_tweets_try self b username start_time")
  from get_user_tweets_try_trace[OF t] assms obtain tr' where
    "drv" "Quit \<notin> set tr" "tr = SetupDriver # tr'" by auto
  with t show ?thesis by (auto simp: get_user_tweets_def)
qed

theorem C7_driver_quit_witness:
  "setup_driver (two_account_world 0) = None
   \<and> last (snd (get_user_tweets (logged_in_client [''Alice'']) (two_account_world 0)
                  ''Alice'' 0)) = Quit"
proof -
  have h: "setup_driver (two_account_world 0) = None"
    by (simp add: two_account_world_def open_page_def)
  from C7_driver_quit[OF h, of "logged_in_client [''Alice'']" "''Alice''" 0] h
  show ?thesis by auto
qed


section \<open>Ids that were seen and rejected\<close>

lemma extract_element_unseen:
  "status_links el = Inr (Inr (Some tweet_url) # links) \<Longrightarrow>
   search_status_id tweet_url = Some i \<Longrightarrow> i \<notin> ids \<Longrightarrow>
   extract_element username start_time ids el
     = (insert i ids, extract_fields username start_time el tweet_url i)"
  by (simp add: extract_element_def)

lemma extract_element_ids:
  "extract_element username start_time ids el = (ids', r) \<Longrightarrow>
   ids' = ids \<or> (\<exists>i. element_id el = Some i \<and> ids' = insert i ids)"
  by (auto simp: extract_element_def element_id_def
           split: sum.splits list.splits option.splits if_splits)

lemma process_tweet_elements_append:
  "process_tweet_elements username start_time ids (xs @ ys) =
     (case process_tweet_elements username start_time ids xs of
        (ids1, out1) \<Rightarrow>
          (case process_tweet_elements username start_time ids1 ys of
             (ids2, out2) \<Rightarrow> (ids2, out1 @ out2)))"
  by (induction xs arbitrary: ids) (auto split: prod.splits sum.splits option.splits)

lemma process_tweet_elements_seen:
  assumes "process_tweet_elements username start_time ids els = (ids', out)" "i \<in> ids"
  shows "i \<in> ids' \<and> Some (Str i) \<notin> set (map item_id out)"
proof -
  from process_tweet_elements_ids[OF assms(1)]
  have s: "ids \<subseteq> ids'"
    and o: "\<forall>d \<in> set out. \<exists>j. item_id d = Some (Str j) \<and> j \<in> ids' \<and> j \<notin> ids" by auto
  have "Some (Str i) \<notin> set (map item_id out)"
  proof
    assume "Some (Str i) \<in> set (map item_id out)"
    then obtain d where "d \<in> set out" "item_id d = Some (Str i)" by auto
    with o assms(2) show False by fastforce
  qed
  with s assms(2) show ?thesis by auto
qed

lemma process_tweet_elements_absent:
  "process_tweet_elements username start_time ids els = (ids', out) \<Longrightarrow> i \<notin> ids \<Longrightarrow>
   \<forall>e \<in> set els. element_id e \<noteq> Some i \<Longrightarrow>
   i \<notin> ids' \<and> Some (Str i) \<notin> set (map item_id out)"
proof (induction els arbitrary: ids ids' out)
  case Nil
  then show ?case by simp
next
  case (Cons el els)
  obtain ids1 r where e: "extract_element username start_time ids el = (ids1, r)"
    by (cases "extract_element username start_time ids el")
  obtain ids2 out2 where
    p: "process_tweet_elements username start_time ids1 els = (ids2, out2)"
    by (cases "process_tweet_elements username start_time ids1 els")
  from extract_element_ids[OF e] Cons.prems(2,3) have n: "i \<notin> ids1" by auto
  from Cons.prems(3) have "\<forall>e \<in> set els. element_id e \<noteq> Some i" by simp
  from Cons.IH[OF p n this] have ih: "i \<notin> ids2" "Some (Str i) \<notin> set (map item_id out2)"
    by auto
  show ?case
  proof (cases r)
    case (Inl x)
    with Cons.prems(1) e p ih show ?thesis by simp
  next
    case (Inr o1)
    show ?thesis
    proof (cases o1)
      case None
      with Inr Cons.prems(1) e p ih show ?thesis by simp
    next
      case (Some d)
      with Inr e obtain j where "item_id d = Some (Str j)" "ids1 = insert j ids"
        using extract_element_accept by blast
      with n have "item_id d \<noteq> Some (Str i)" by auto
      with Some Inr Cons.prems(1) e p ih show ?thesis by auto
    qed
  qed
qed

lemma process_tweet_elements_rejected:
  assumes p: "process_tweet_elements username start_time ids (pre @ el # post) = (ids', out)"
    and i: "i \<notin> ids"
    and pre: "\<forall>e \<in> set pre. element_id e \<noteq> Some i"
    and sl: "status_links el = Inr (Inr (Some tweet_url) # links)"
    and id: "search_status_id tweet_url = Some i"
    and rej: "\<forall>d. extract_fields username start_time el tweet_url i \<noteq> Inr (Some d)"
  shows "i \<in> ids' \<and> Some (Str i) \<notin> set (map item_id out)"
proof -
  obtain ids1 out1 where
    p1: "process_tweet_elements username start_time ids pre = (ids1, out1)"
    by (cases "process_tweet_elements username start_time ids pre")
  from process_tweet_elements_absent[OF p1 i pre]
  have a: "i \<notin> ids1" "Some (Str i) \<notin> set (map item_id out1)" by auto
  have e: "extract_element username start_time ids1 el
             = (insert i ids1, extract_fields username start_time el tweet_url i)"
    using sl id a(1) by (rule extract_element_unseen)
  obtain ids2 out2 where
    p2: "process_tweet_elements username start_time (insert i ids1) post = (ids2, out2)"
    by (cases "process_tweet_elements username start_time (insert i ids1) post")
  from process_tweet_elements_seen[OF p2]
  have b: "i \<in> ids2" "Some (Str i) \<notin> set (map item_id out2)" by auto
  have "process_tweet_elements username start_time ids1 (el # post) = (ids2, out2)"
    using e p2 rej by (auto split: sum.splits option.splits)
  with p p1 have "ids' = ids2" "out = out1 @ out2"
    by (simp_all add: process_tweet_elements_append)
  with a b show ?thesis by auto
qed

lemma scroll_loop_seen:
  "scroll_loop username start_time rs k n ids acc = (tr, Inr ts) \<Longrightarrow> i \<in> ids \<Longrightarrow>
   Some (Str i) \<notin> set (map item_id acc) \<Longrightarrow> Some (Str i) \<notin> set (map item_id ts)"
proof (induction n arbitrary: k ids acc tr)
  case 0
  then show ?case by simp
next
  case (Suc n)
  from Suc.prems(1) obtain els where
    els: "new_tweet_elements (rs k) = Inr els"
    by (auto split: option.splits sum.splits)
  obtain ids1 new where p: "process_tweet_elements username start_time ids els = (ids1, new)"
    by (cases "process_tweet_elements username start_time ids els")
  from process_tweet_elements_seen[OF p Suc.prems(2)] Suc.prems(3)
  have s: "i \<in> ids1" "Some (Str i) \<notin> set (map item_id (acc @ new))" by auto
  show ?case
  proof (cases "new = []")
    case True
    with Suc.prems(1) els p have "ts = acc @ new"
      by (auto split: option.splits)
    with s show ?thesis by simp
  next
    case False
    with Suc.prems(1) els p obtain tr' where
      "scroll_loop username start_time rs (Suc k) n ids1 (acc @ new) = (tr', Inr ts)"
      by (auto split: option.splits prod.splits)
    from Suc.IH[OF this s] show ?thesis .
  qed
qed

lemma scroll_loop_rejected:
  "scroll_loop username start_time rs k n ids acc = (tr, Inr ts) \<Longrightarrow> i \<notin> ids \<Longrightarrow>
   Some (Str i) \<notin> set (map item_id acc) \<Longrightarrow>
   \<forall>j < m. \<forall>els. new_tweet_elements (rs (k + j)) = Inr els \<longrightarrow>
      (\<forall>e \<in> set els. element_id e \<noteq> Some i) \<Longrightarrow>
   new_tweet_elements (rs (k + m)) = Inr (pre @ el # post) \<Longrightarrow>
   \<forall>e \<in> set pre. element_id e \<noteq> Some i \<Longrightarrow>
   status_links el = Inr (Inr (Some tweet_url) # links) \<Longrightarrow>
   search_status_id tweet_url = Some i \<Longrightarrow>
   \<forall>d. extract_fields username start_time el tweet_url i \<noteq> Inr (Some d) \<Longrightarrow>
   Some (Str i) \<notin> set (map item_id ts)"
proof (induction n arbitrary: k m ids acc tr)
  case 0
  then show ?case by simp
next
  case (Suc n)
  from Suc.prems(1) obtain els where
    els: "new_tweet_elements (rs k) = Inr els"
    by (auto split: option.splits sum.splits)
  obtain ids1 new where p: "process_tweet_elements username start_time ids els = (ids1, new)"
    by (cases "process_tweet_elements username start_time ids els")
  have step: "new \<noteq> [] \<Longrightarrow> \<exists>tr'.
      scroll_loop username start_time rs (Suc k) n ids1 (acc @ new) = (tr', Inr ts)"
    using Suc.prems(1) els p by (auto split: option.splits prod.splits)
  have stop: "new = [] \<Longrightarrow> ts = acc @ new"
    using Suc.prems(1) els p by (auto split: option.splits)
  show ?case
  proof (cases m)
    case 0
    with Suc.prems(5) els have "els = pre @ el # post" by simp
    with p have "process_tweet_elements username start_time ids (pre @ el # post) = (ids1, new)"
      by simp
    from process_tweet_elements_rejected[OF this Suc.prems(2) Suc.prems(6) Suc.prems(7)
           Suc.prems(8) Suc.prems(9)] Suc.prems(3)
    have s: "i \<in> ids1" "Some (Str i) \<notin> set (map item_id (acc @ new))" by auto
    show ?thesis
    proof (cases "new = []")
      case True
      with stop s show ?thesis by simp
    next
      case False
      with step obtain tr' where
        "scroll_loop username start_time rs (Suc k) n ids1 (acc @ new) = (tr', Inr ts)" by blast
      from scroll_loop_seen[OF this s] show ?thesis .
    qed
  next
    case (Suc m')
    with Suc.prems(4)[rule_format, of 0 els] els
    have "\<forall>e \<in> set els. element_id e \<noteq> Some i" by simp
    from process_tweet_elements_absent[OF p Suc.prems(2) this] Suc.prems(3)
    have s: "i \<notin> ids1" "Some (Str i) \<notin> set (map item_id (acc @ new))" by auto
    show ?thesis
    proof (cases "new = []")
      case True
      with stop s show ?thesis by simp
    next
      case False
      with step obtain tr' where
        l: "scroll_loop username start_time rs (Suc k) n ids1 (acc @ new) = (tr', Inr ts)"
        by blast
      have a: "\<forall>j < m'. \<forall>els. new_tweet_elements (rs (Suc k + j)) = Inr els \<longrightarrow>
                 (\<forall>e \<in> set els. element_id e \<noteq> Some i)"
        using Suc.prems(4) Suc by auto
      have b: "new_tweet_elements (rs (Suc k + m')) = Inr (pre @ el # post)"
        using Suc.prems(5) Suc by simp
      from Suc.IH[OF l s a b Suc.prems(6) Suc.prems(7) Suc.prems(8) Suc.prems(9)]
      show ?thesis .
    qed
  qed
qed


text \<open>
  C10. A container whose id is not yet in the seen-set puts its id there before any other
  field is read: the seen-set returned has the id, whatever the rest of the extraction
  yields. Consequently, when the first container of a run that shows id \<open>i\<close> yields no
  item (its timestamp is before \<open>start_time\<close>, or it raises after the id was read), no
  item with id \<open>i\<close> is in the task's result, whatever later batches show.
\<close>

theorem C10_seen_before_filter:
  "(\<forall>el tweet_url links i ids.
      status_links el = Inr (Inr (Some tweet_url) # links) \<and>
      search_status_id tweet_url = Some i \<and> i \<notin> ids
      \<longrightarrow> extract_element username start_time ids el
            = (insert i ids, extract_fields username start_time el tweet_url i))
   \<and> (\<forall>k pre el post tweet_url links i.
        batch b k = Inr (pre @ el # post) \<and>
        (\<forall>j < k. \<forall>els. batch b j = Inr els \<longrightarrow> (\<forall>e \<in> set els. element_id e \<noteq> Some i)) \<and>
        (\<forall>e \<in> set pre. element_id e \<noteq> Some i) \<and>
        status_links el = Inr (Inr (Some tweet_url) # links) \<and>
        search_status_id tweet_url = Some i \<and>
        (\<forall>d. extract_fields username start_time el tweet_url i \<noteq> Inr (Some d))
        \<longrightarrow> Some (Str i) \<notin> set (map item_id (fst (get_user_tweets self b username start_time))))"
proof -
  have R: "Some (Str i) \<notin> set (map item_id (fst (get_user_tweets self b username start_time)))"
    if bk: "batch b k = Inr (pre @ el # post)"
      and before: "\<forall>j < k. \<forall>els. batch b j = Inr els \<longrightarrow> (\<forall>e \<in> set els. element_id e \<noteq> Some i)"
      and pre: "\<forall>e \<in> set pre. element_id e \<noteq> Some i"
      and sl: "status_links el = Inr (Inr (Some tweet_url) # links)"
      and id: "search_status_id tweet_url = Some i"
      and rej: "\<forall>d. extract_fields username start_time el tweet_url i \<noteq> Inr (Some d)"
    for k pre el post tweet_url links i
  proof -
    obtain drv tr r where t: "get_user_tweets_try self b username start_time = (drv, tr, r)"
      by (cases "get_user_tweets_try self b username start_time")
    show ?thesis
    proof (cases r)
      case (Inl e)
      with t show ?thesis by (simp add: get_user_tweets_def)
    next
      case (Inr ts)
      show ?thesis
      proof (cases "ts = []")
        case True
        with t Inr show ?thesis by (simp add: get_user_tweets_def)
      next
        case False
        with t Inr get_user_tweets_try_loop obtain els ids initial tr' where
          ie: "initial_elements b = Inr els" and
          p: "process_tweet_elements username start_time {} els = (ids, initial)" and
          l: "scroll_loop username start_time (rounds b) 0 max_scrolls ids initial = (tr', Inr ts)"
          by blast
        have "Some (Str i) \<notin> set (map item_id ts)"
        proof (cases k)
          case 0
          with bk ie have "els = pre @ el # post" by (simp add: batch_def)
          with p have
            "process_tweet_elements username start_time {} (pre @ el # post) = (ids, initial)"
            by simp
          from process_tweet_elements_rejected[OF this _ pre sl id rej]
          have "i \<in> ids" "Some (Str i) \<notin> set (map item_id initial)" by auto
          with l show ?thesis by (rule scroll_loop_seen)
        next
          case (Suc m)
          from before[rule_format, of 0 els] Suc ie
          have "\<forall>e \<in> set els. element_id e \<noteq> Some i" by (simp add: batch_def)
          from process_tweet_elements_absent[OF p _ this]
          have s: "i \<notin> ids" "Some (Str i) \<notin> set (map item_id initial)" by auto
          have a: "\<forall>j < m. \<forall>els. new_tweet_elements (rounds b (0 + j)) = Inr els \<longrightarrow>
                     (\<forall>e \<in> set els. element_id e \<noteq> Some i)"
          proof (intro allI impI)
            fix j els'
            assume "j < m" "new_tweet_elements (rounds b (0 + j)) = Inr els'"
            with before[rule_format, of "Suc j" els'] Suc
            show "\<forall>e \<in> set els'. element_id e \<noteq> Some i" by (simp add: batch_def)
          qed
          have c: "new_tweet_elements (rounds b (0 + m)) = Inr (pre @ el # post)"
            using bk Suc by (simp add: batch_def)
          from scroll_loop_rejected[OF l s a c pre sl id rej] show ?thesis .
        qed
        with t Inr show ?thesis by (simp add: get_user_tweets_def)
      qed
    qed
  qed
  show ?thesis
  proof (intro conjI allI impI)
    fix el :: tweet_element and tweet_url links i ids
    assume "status_links el = Inr (Inr (Some tweet_url) # links) \<and>
      search_status_id tweet_url = Some i \<and> i \<notin> ids"
    then show "extract_element username start_time ids el
            = (insert i ids, extract_fields username start_time el tweet_url i)"
      by (simp add: extract_element_unseen)
  next
    fix k pre post tweet_url links i and el :: tweet_element
    assume "batch b k = Inr (pre @ el # post) \<and>
        (\<forall>j < k. \<forall>els. batch b j = Inr els \<longrightarrow> (\<forall>e \<in> set els. element_id e \<noteq> Some i)) \<and>
        (\<forall>e \<in> set pre. element_id e \<noteq> Some i) \<and>
        status_links el = Inr (Inr (Some tweet_url) # links) \<and>
        search_status_id tweet_url = Some i \<and>
        (\<forall>d. extract_fields username start_time el tweet_url i \<noteq> Inr (Some d))"
    then show "Some (Str i) \<notin> set (map item_id (fst (get_user_tweets self b username start_time)))"
      using R by blast
  qed
qed

theorem C10_seen_before_filter_witness:
  "extract_element ''u'' 50 {} (plain_tweet ''https://twitter.com/u/status/1'' 5)
     = ({''1''}, Inr None)
   \<and> Some (Str ''1'') \<notin> set (map item_id (fst (get_user_tweets (logged_in_client [''u''])
         (open_page [plain_tweet ''https://twitter.com/u/status/1'' 5] rerender_rounds)
         ''u'' 50)))
   \<and> extract_element ''u'' 50 {} (plain_tweet ''https://twitter.com/u/status/1'' 100)
     = ({''1''}, Inr (Some (build_tweet_data ''1'' [] 100 [] ''https://twitter.com/u/status/1''
                             False None)))"
proof -
  let ?el = "plain_tweet ''https://twitter.com/u/status/1'' 5"
  let ?b = "open_page [?el] rerender_rounds"
  note t = C10_seen_before_filter[of "''u''" 50 ?b "logged_in_client [''u'']"]
  have s: "status_links ?el = Inr (Inr (Some ''https://twitter.com/u/status/1'') # [])"
    by (simp add: plain_tweet_def)
  have i: "search_status_id ''https://twitter.com/u/status/1'' = Some ''1''"
    by (simp add: is_digit_def)
  have f: "extract_fields ''u'' 50 ?el ''https://twitter.com/u/status/1'' ''1'' = Inr None"
    by (simp add: extract_fields_def plain_tweet_def check_retweet_def tweet_text_of_def
          created_at_of_def)
  have n: "''1'' \<notin> ({} :: string set)" by simp
  have "extract_element ''u'' 50 {} ?el
      = (insert ''1'' {}, extract_fields ''u'' 50 ?el ''https://twitter.com/u/status/1'' ''1'')"
    using t[THEN conjunct1, rule_format,
            where el = ?el and tweet_url = "''https://twitter.com/u/status/1''"
              and links = "[]" and i = "''1''" and ids = "{}"] s i n
    by simp
  with f have 1: "extract_element ''u'' 50 {} ?el = ({''1''}, Inr None)" by simp
  have b0: "batch ?b 0 = Inr ([] @ ?el # [])"
    by (simp add: batch_def open_page_def)
  have before: "\<forall>j < (0::nat). \<forall>els. batch ?b j = Inr els \<longrightarrow>
                  (\<forall>e \<in> set els. element_id e \<noteq> Some ''1'')" by simp
  have pre: "\<forall>e \<in> set ([] :: tweet_element list). element_id e \<noteq> Some ''1''" by simp
  have rej: "\<forall>d. extract_fields ''u'' 50 ?el ''https://twitter.com/u/status/1'' ''1''
                \<noteq> Inr (Some d)"
    by (simp add: f)
  have 2: "Some (Str ''1'') \<notin> set (map item_id (fst (get_user_tweets (logged_in_client [''u''])
         ?b ''u'' 50)))"
    by (rule t[THEN conjunct2, rule_format,
               where k = 0 and pre = "[]" and el = ?el and post = "[]"
                 and tweet_url = "''https://twitter.com/u/status/1''"
                 and links = "[]" and i = "''1''"])
       (intro conjI b0 before pre s i rej)
  have 3: "extract_element ''u'' 50 {} (plain_tweet ''https://twitter.com/u/status/1'' 100)
     = ({''1''}, Inr (Some (build_tweet_data ''1'' [] 100 [] ''https://twitter.com/u/status/1''
                             False None)))"
    by (simp add: extract_plain_tweet is_digit_def)
  from 1 2 3 show ?thesis by blast
qed

section \<open>The fields of an item\<close>

lemma process_tweet_elements_source:
  "process_tweet_elements username start_time ids els = (ids', out) \<Longrightarrow> d \<in> set out \<Longrightarrow>
   \<exists>el ids0 ids1. el \<in> set els \<and>
      extract_element username start_time ids0 el = (ids1, Inr (Some d))"
proof (induction els arbitrary: ids ids' out)
  case Nil
  then show ?case by simp
next
  case (Cons el els)
  obtain ids1 r where e: "extract_element username start_time ids el = (ids1, r)"
    by (cases "extract_element username start_time ids el")
  obtain ids2 out2 where
    p: "process_tweet_elements username start_time ids1 els = (ids2, out2)"
    by (cases "process_tweet_elements username start_time ids1 els")
  have rest: "d \<in> set out2 \<Longrightarrow> ?case"
    using Cons.IH[OF p] by auto
  show ?case
  proof (cases r)
    case (Inl x)
    with Cons.prems e p rest show ?thesis by simp
  next
    case (Inr o1)
    show ?thesis
    proof (cases o1)
      case None
      with Inr Cons.prems e p rest show ?thesis by simp
    next
      case (Some d')
      with Inr Cons.prems e p have "d = d' \<or> d \<in> set out2" by auto
      then show ?thesis
      proof
        assume "d = d'"
        with e Inr Some show ?thesis by auto
      next
        assume "d \<in> set out2"
        then show ?thesis by (rule rest)
      qed
    qed
  qed
qed

lemma scroll_loop_source:
  "scroll_loop username start_time rs k n ids acc = (tr, Inr ts) \<Longrightarrow> d \<in> set ts \<Longrightarrow>
   d \<in> set acc \<or>
   (\<exists>j els el ids0 ids1. new_tweet_elements (rs j) = Inr els \<and> el \<in> set els \<and>
      extract_element username start_time ids0 el = (ids1, Inr (Some d)))"
proof (induction n arbitrary: k ids acc tr)
  case 0
  then show ?case by simp
next
  case (Suc n)
  from Suc.prems(1) obtain els where
    els: "new_tweet_elements (rs k) = Inr els"
    by (auto split: option.splits sum.splits)
  obtain ids1 new where p: "process_tweet_elements username start_time ids els = (ids1, new)"
    by (cases "process_tweet_elements username start_time ids els")
  have n: "d \<in> set new \<Longrightarrow> ?case"
    using process_tweet_elements_source[OF p] els by blast
  show ?case
  proof (cases "new = []")
    case True
    with Suc.prems(1) els p have "ts = acc @ new"
      by (auto split: option.splits)
    with Suc.prems(2) True show ?thesis by simp
  next
    case False
    with Suc.prems(1) els p obtain tr' where
      "scroll_loop username start_time rs (Suc k) n ids1 (acc @ new) = (tr', Inr ts)"
      by (auto split: option.splits prod.splits)
    from Suc.IH[OF this Suc.prems(2)] n show ?thesis by auto
  qed
qed

lemma get_user_tweets_source:
  assumes "d \<in> set (fst (get_user_tweets self b username start_time))"
  shows "\<exists>k els el ids0 ids1. batch b k = Inr els \<and> el \<in> set els \<and>
           extract_element username start_time ids0 el = (ids1, Inr (Some d))"
proof -
  obtain drv tr r where t: "get_user_tweets_try self b username start_time = (drv, tr, r)"
    by (cases "get_user_tweets_try self b username start_time")
  with assms obtain ts where r: "r = Inr ts" and d: "d \<in> set ts"
    by (cases r) (auto simp: get_user_tweets_def)
  then have "ts \<noteq> []" by auto
  with t r get_user_tweets_try_loop obtain els ids initial tr' where
    ie: "initial_elements b = Inr els" and
    p: "process_tweet_elements username start_time {} els = (ids, initial)" and
    l: "scroll_loop username start_time (rounds b) 0 max_scrolls ids initial = (tr', Inr ts)"
    by blast
  from scroll_loop_source[OF l d] show ?thesis
  proof
    assume "d \<in> set initial"
    from process_tweet_elements_source[OF p this] ie show ?thesis
      by (metis batch_def nat.case(1))
  next
    assume "\<exists>j els el ids0 ids1. new_tweet_elements (rounds b j) = Inr els \<and> el \<in> set els \<and>
      extract_element username start_time ids0 el = (ids1, Inr (Some d))"
    then obtain j els' el ids0 ids1 where
      "new_tweet_elements (rounds b j) = Inr els'" "el \<in> set els'"
      "extract_element username start_time ids0 el = (ids1, Inr (Some d))" by blast
    then have "batch b (Suc j) = Inr els'" by (simp add: batch_def)
    with \<open>el \<in> set els'\<close> \<open>extract_element username start_time ids0 el = (ids1, Inr (Some d))\<close>
    show ?thesis by blast
  qed
qed

lemma extract_element_fields:
  assumes "extract_element username start_time ids el = (ids', Inr (Some d))"
  shows "\<exists>tweet_id tweet_text created_at tweet_url.
           d = build_tweet_data tweet_id tweet_text created_at (image_urls_of el) tweet_url
                 (fst (check_retweet username el)) (snd (check_retweet username el))"
  using assms
  by (auto simp: extract_element_def extract_fields_def
           split: sum.splits list.splits option.splits if_splits prod.splits pydatetime.splits)

lemma check_retweet_handle:
  assumes "user_name_blocks el = Inr (Inr author_links # blocks)"
    and "2 \<le> length author_links" and "author_links ! 1 = Inr (Some author_href)"
  shows "check_retweet username el =
           (if lower (last_segment author_href) \<noteq> lower username
            then (True, Some (lower (last_segment author_href))) else (False, None))"
  using assms by (simp add: check_retweet_def Let_def)

lemma check_retweet_no_handle:
  assumes "\<not> (\<exists>author_links blocks author_href.
              user_name_blocks el = Inr (Inr author_links # blocks) \<and>
              2 \<le> length author_links \<and> author_links ! 1 = Inr (Some author_href))"
  shows "check_retweet username el = (False, None)"
  using assms
  by (auto simp: check_retweet_def Let_def split: sum.splits list.splits option.splits)

lemma check_retweet_False:
  "fst (check_retweet username el) = False \<Longrightarrow> snd (check_retweet username el) = None"
  by (auto simp: check_retweet_def Let_def split: sum.splits list.splits option.splits if_splits)

lemma build_is_retweet:
  "map_of (build_tweet_data i t c im u r oa) ''is_retweet'' = Some (Bool r)"
  by (simp add: build_tweet_data_def)

lemma build_original_author:
  "map_of (build_tweet_data i t c im u r oa) ''original_author'' =
     (case oa of Some a \<Rightarrow> if r \<and> a \<noteq> [] then Some (Str a) else None | None \<Rightarrow> None)"
  by (simp add: build_tweet_data_def split: option.splits)

lemma build_keys:
  "map fst (build_tweet_data i t c im u r oa) =
     [''id'', ''text'', ''created_at'', ''image_urls'', ''url'', ''is_retweet'']
     @ (case oa of Some a \<Rightarrow> if r \<and> a \<noteq> [] then [''original_author''] else [] | None \<Rightarrow> [])"
  by (simp add: build_tweet_data_def split: option.splits)

lemma build_author:
  "map_of (build_tweet_data i t c im u r oa) ''author'' = None"
  by (simp add: build_tweet_data_def split: option.splits)


lemma extract_element_repost:
  assumes "extract_element username start_time ids el = (ids', Inr (Some d))"
  shows "(\<forall>author_links blocks author_href.
            user_name_blocks el = Inr (Inr author_links # blocks) \<and>
            2 \<le> length author_links \<and> author_links ! 1 = Inr (Some author_href) \<longrightarrow>
            map_of d ''is_retweet''
              = Some (Bool (lower (last_segment author_href) \<noteq> lower username))
            \<and> (lower (last_segment author_href) \<noteq> lower username \<and>
                 last_segment author_href \<noteq> [] \<longrightarrow>
                 map_of d ''original_author''
                   = Some (Str (lower (last_segment author_href)))))
         \<and> (\<not> (\<exists>author_links blocks author_href.
                user_name_blocks el = Inr (Inr author_links # blocks) \<and>
                2 \<le> length author_links \<and> author_links ! 1 = Inr (Some author_href))
              \<longrightarrow> map_of d ''is_retweet'' = Some (Bool False))
         \<and> (map_of d ''is_retweet'' = Some (Bool False)
              \<longrightarrow> map_of d ''original_author'' = None)"
proof -
  from extract_element_fields[OF assms] obtain i t c u where
    d: "d = build_tweet_data i t c (image_urls_of el) u
              (fst (check_retweet username el)) (snd (check_retweet username el))"
    by blast
  have 1: "map_of d ''is_retweet''
              = Some (Bool (lower (last_segment author_href) \<noteq> lower username))
            \<and> (lower (last_segment author_href) \<noteq> lower username \<and>
                 last_segment author_href \<noteq> [] \<longrightarrow>
                 map_of d ''original_author''
                   = Some (Str (lower (last_segment author_href))))"
    if "user_name_blocks el = Inr (Inr author_links # blocks)"
       "2 \<le> length author_links" "author_links ! 1 = Inr (Some author_href)"
    for author_links blocks author_href
    using check_retweet_handle[OF that, of username] d
    by (simp add: build_is_retweet build_original_author lower_def)
  have 2: "map_of d ''is_retweet'' = Some (Bool False)"
    if "\<not> (\<exists>author_links blocks author_href.
                user_name_blocks el = Inr (Inr author_links # blocks) \<and>
                2 \<le> length author_links \<and> author_links ! 1 = Inr (Some author_href))"
    using check_retweet_no_handle[OF that, of username] d by (simp add: build_is_retweet)
  have 3: "map_of d ''original_author'' = None"
    if "map_of d ''is_retweet'' = Some (Bool False)"
    using that d check_retweet_False[of username el]
    by (simp add: build_is_retweet build_original_author)
  from 1 2 3 show ?thesis by blast
qed

text \<open>
  C6 (amended). Every item a task returns was extracted from a container the browser
  showed. For an extracted item: when the second link of the container's first
  \<open>User-Name\<close> block has an \<open>href\<close>, \<open>is_retweet\<close> tells whether the lower-cased last
  path segment of that \<open>href\<close> differs from the lower-cased queried handle, and when it
  differs and is not empty, \<open>original_author\<close> is that lower-cased segment; when no such
  \<open>href\<close> can be read, \<open>is_retweet\<close> is false; and when \<open>is_retweet\<close> is false the key
  \<open>original_author\<close> is absent.
\<close>

theorem C6_repost_flag:
  "(d \<in> set (fst (get_user_tweets self b username start_time)) \<longrightarrow>
      (\<exists>k els el ids0 ids1. batch b k = Inr els \<and> el \<in> set els \<and>
          extract_element username start_time ids0 el = (ids1, Inr (Some d))))
   \<and> (extract_element username start_time ids el = (ids', Inr (Some d')) \<longrightarrow>
        (\<forall>author_links blocks author_href.
            user_name_blocks el = Inr (Inr author_links # blocks) \<and>
            2 \<le> length author_links \<and> author_links ! 1 = Inr (Some author_href) \<longrightarrow>
            map_of d' ''is_retweet''
              = Some (Bool (lower (last_segment author_href) \<noteq> lower username))
            \<and> (lower (last_segment author_href) \<noteq> lower username \<and>
                 last_segment author_href \<noteq> [] \<longrightarrow>
                 map_of d' ''original_author''
                   = Some (Str (lower (last_segment author_href)))))
         \<and> (\<not> (\<exists>author_links blocks author_href.
                user_name_blocks el = Inr (Inr author_links # blocks) \<and>
                2 \<le> length author_links \<and> author_links ! 1 = Inr (Some author_href))
              \<longrightarrow> map_of d' ''is_retweet'' = Some (Bool False))
         \<and> (map_of d' ''is_retweet'' = Some (Bool False)
              \<longrightarrow> map_of d' ''original_author'' = None))"
  using get_user_tweets_source[of d self b username start_time]
        extract_element_repost[of username start_time ids el ids' d']
  by blast

lemma extract_authored_tweet:
  "extract_element username start_time ids (authored_tweet href author_href ts) =
     (case search_status_id href of
        None \<Rightarrow> (ids, Inr None)
      | Some i \<Rightarrow>
          if i \<in> ids then (ids, Inr None)
          else (insert i ids,
                if ts < start_time then Inr None
                else Inr (Some (build_tweet_data i [] ts [] href
                       (lower (last_segment author_href) \<noteq> lower username)
                       (if lower (last_segment author_href) \<noteq> lower username
                        then Some (lower (last_segment author_href)) else None)))))"
  by (simp add: extract_element_def extract_fields_def plain_tweet_def authored_tweet_def
        check_retweet_def tweet_text_of_def created_at_of_def image_urls_of_def Let_def
        split: option.splits)

lemma idle_run:
  assumes "cookies self = Some (c # cs)"
    and "process_tweet_elements username start_time {} els = (ids, out)"
  shows "fst (get_user_tweets self (open_page els idle_rounds) username start_time) = out"
  using assms
  by (simp add: get_user_tweets_def get_user_tweets_try_def open_page_def apply_cookies_def
        max_scrolls_def eval_nat_numeral idle_rounds_def quiet_round_def)

lemma bob_handle: "last_segment ''https://twitter.com/Bob'' = ''Bob''"
  "lower ''Bob'' = ''bob''" "lower ''alice'' = ''alice''"
  by code_simp+

lemma status7: "search_status_id ''https://twitter.com/Bob/status/7'' = Some ''7''"
  by code_simp

lemma repost_run:
  "fst (get_user_tweets (logged_in_client [''alice''])
          (open_page [authored_tweet ''https://twitter.com/Bob/status/7''
                        ''https://twitter.com/Bob'' 100] idle_rounds) ''alice'' 50)
     = [[(''id'', Str ''7''), (''text'', Str []), (''created_at'', DateTime 100),
         (''image_urls'', StrList []), (''url'', Str ''https://twitter.com/Bob/status/7''),
         (''is_retweet'', Bool True), (''original_author'', Str ''bob'')]]"
proof -
  have "process_tweet_elements ''alice'' 50 {}
          [authored_tweet ''https://twitter.com/Bob/status/7'' ''https://twitter.com/Bob'' 100]
        = ({''7''}, [[(''id'', Str ''7''), (''text'', Str []), (''created_at'', DateTime 100),
         (''image_urls'', StrList []), (''url'', Str ''https://twitter.com/Bob/status/7''),
         (''is_retweet'', Bool True), (''original_author'', Str ''bob'')]])"
    by (simp add: extract_authored_tweet status7 bob_handle build_tweet_data_def
          del: search_status_id.simps)
  from idle_run[OF _ this, of "logged_in_client [''alice'']"] show ?thesis
    by (simp add: logged_in_client_def)
qed

lemma plain_run_from:
  assumes "start_time \<le> 100"
  shows "fst (get_user_tweets (logged_in_client users)
          (open_page [plain_tweet ''https://twitter.com/u/status/1'' 100] idle_rounds)
          username start_time)
     = [[(''id'', Str ''1''), (''text'', Str []), (''created_at'', DateTime 100),
         (''image_urls'', StrList []), (''url'', Str ''https://twitter.com/u/status/1''),
         (''is_retweet'', Bool False)]]"
proof -
  have "process_tweet_elements username start_time {}
          [plain_tweet ''https://twitter.com/u/status/1'' 100]
        = ({''1''}, [[(''id'', Str ''1''), (''text'', Str []), (''created_at'', DateTime 100),
         (''image_urls'', StrList []), (''url'', Str ''https://twitter.com/u/status/1''),
         (''is_retweet'', Bool False)]])"
    using assms by (simp add: extract_plain_tweet is_digit_def build_tweet_data_def)
  from idle_run[OF _ this, of "logged_in_client users"] show ?thesis
    by (simp add: logged_in_client_def)
qed

text \<open>
  C6 as stated fails: for the queried handle \<open>alice\<close>, a container whose author link ends
  in \<open>Bob\<close> gives \<open>original_author = bob\<close>, which is not the rendered handle \<open>Bob\<close>.
\<close>

theorem C6_counterexample:
  "fst (get_user_tweets (logged_in_client [''alice''])
          (open_page [authored_tweet ''https://twitter.com/Bob/status/7''
                        ''https://twitter.com/Bob'' 100] idle_rounds) ''alice'' 50)
     = [[(''id'', Str ''7''), (''text'', Str []), (''created_at'', DateTime 100),
         (''image_urls'', StrList []), (''url'', Str ''https://twitter.com/Bob/status/7''),
         (''is_retweet'', Bool True), (''original_author'', Str ''bob'')]]
   \<and> last_segment ''https://twitter.com/Bob'' = ''Bob''
   \<and> Str ''bob'' \<noteq> Str ''Bob''"
  by (simp add: repost_run bob_handle)

theorem C6_repost_flag_witness:
  "extract_element ''alice'' 50 {}
     (authored_tweet ''https://twitter.com/Bob/status/7'' ''https://twitter.com/Bob'' 100)
     = ({''7''}, Inr (Some
         [(''id'', Str ''7''), (''text'', Str []), (''created_at'', DateTime 100),
          (''image_urls'', StrList []), (''url'', Str ''https://twitter.com/Bob/status/7''),
          (''is_retweet'', Bool True), (''original_author'', Str ''bob'')]))
   \<and> map_of [(''id'', Str ''7''), (''text'', Str []), (''created_at'', DateTime 100),
          (''image_urls'', StrList []), (''url'', Str ''https://twitter.com/Bob/status/7''),
          (''is_retweet'', Bool True), (''original_author'', Str ''bob'')] ''original_author''
       = Some (Str (lower (last_segment ''https://twitter.com/Bob'')))
   \<and> (\<exists>k els el ids0 ids1.
         batch (open_page [authored_tweet ''https://twitter.com/Bob/status/7''
                        ''https://twitter.com/Bob'' 100] idle_rounds) k = Inr els \<and>
         el \<in> set els \<and>
         extract_element ''alice'' 50 ids0 el = (ids1, Inr (Some
           [(''id'', Str ''7''), (''text'', Str []), (''created_at'', DateTime 100),
            (''image_urls'', StrList []), (''url'', Str ''https://twitter.com/Bob/status/7''),
            (''is_retweet'', Bool True), (''original_author'', Str ''bob'')])))"
proof -
  let ?el = "authored_tweet ''https://twitter.com/Bob/status/7'' ''https://twitter.com/Bob'' 100"
  let ?d = "[(''id'', Str ''7''), (''text'', Str []), (''created_at'', DateTime 100),
          (''image_urls'', StrList []), (''url'', Str ''https://twitter.com/Bob/status/7''),
          (''is_retweet'', Bool True), (''original_author'', Str ''bob'')]"
  let ?b = "open_page [?el] idle_rounds"
  have h1: "?d \<in> set (fst (get_user_tweets (logged_in_client [''alice'']) ?b ''alice'' 50))"
    by (simp add: repost_run)
  have h2: "extract_element ''alice'' 50 {} ?el = ({''7''}, Inr (Some ?d))"
    by (simp add: extract_authored_tweet status7 bob_handle build_tweet_data_def
          del: search_status_id.simps)
  have h3: "user_name_blocks ?el
              = Inr (Inr [Inr (Some ''https://twitter.com/Bob''),
                          Inr (Some ''https://twitter.com/Bob'')] # [])
            \<and> 2 \<le> length [Inr (Some ''https://twitter.com/Bob'') :: attr,
                            Inr (Some ''https://twitter.com/Bob'')]
            \<and> [Inr (Some ''https://twitter.com/Bob'') :: attr,
                 Inr (Some ''https://twitter.com/Bob'')] ! 1
                = Inr (Some ''https://twitter.com/Bob'')"
    by (simp add: authored_tweet_def plain_tweet_def)
  have h4: "lower (last_segment ''https://twitter.com/Bob'') \<noteq> lower ''alice''
            \<and> last_segment ''https://twitter.com/Bob'' \<noteq> []"
    by (simp add: bob_handle)
  note t = C6_repost_flag[of ?d "logged_in_client [''alice'']" ?b "''alice''" 50 "{}" ?el
             "{''7''}" ?d]
  from t h1 have p: "\<exists>k els el ids0 ids1. batch ?b k = Inr els \<and> el \<in> set els \<and>
          extract_element ''alice'' 50 ids0 el = (ids1, Inr (Some ?d))" by blast
  from t h2 h3 h4 have "map_of ?d ''original_author''
       = Some (Str (lower (last_segment ''https://twitter.com/Bob'')))" by blast
  with h2 p show ?thesis by blast
qed

section \<open>The mapping of a run and the order of its tasks\<close>

lemma dom_foldl_lower:
  "dom (foldl (\<lambda>m username. m(lower username \<mapsto> v)) m0 users) = dom m0 \<union> lower ` set users"
  by (induction users arbitrary: m0) auto

lemma dom_empty_by_user: "dom (empty_by_user users) = lower ` set users"
  by (simp add: empty_by_user_def dom_foldl_lower)


lemma user_task_returns:
  "user_task self b username start_time = (Inr tweets, tr) \<Longrightarrow>
   get_user_tweets self b username start_time = (tweets, tr)"
  by (auto simp: user_task_def split: prod.splits option.splits)

lemma user_task_quiet:
  "setup_driver b \<noteq> None \<or> quit_outcome b = None \<Longrightarrow>
   user_task self b username start_time
     = (Inr (fst (get_user_tweets self b username start_time)),
        snd (get_user_tweets self b username start_time))"
  by (auto simp: user_task_def split: prod.splits option.splits)

lemma user_task_raises:
  "setup_driver b = None \<Longrightarrow> quit_outcome b = Some e \<Longrightarrow>
   user_task self b username start_time
     = (Inl e, snd (get_user_tweets self b username start_time))"
  by (auto simp: user_task_def split: prod.splits option.splits)

lemma fetch_users_Cons:
  assumes "fetch_users self world start_time i (u # users) m = (Inr m', tr)"
  shows "\<exists>tr2.
           user_task self (world i) u start_time
             = (Inr (fst (get_user_tweets self (world i) u start_time)),
                snd (get_user_tweets self (world i) u start_time)) \<and>
           fetch_users self world start_time (Suc i) users
               (m(lower u \<mapsto> fst (get_user_tweets self (world i) u start_time)))
             = (Inr m', tr2) \<and>
           tr = snd (get_user_tweets self (world i) u start_time) @ tr2"
proof -
  obtain r1 tr1 where t: "user_task self (world i) u start_time = (r1, tr1)"
    by (cases "user_task self (world i) u start_time")
  with assms obtain tweets where r1: "r1 = Inr tweets" by (cases r1) auto
  from user_task_returns[OF t[unfolded r1]]
  have g: "get_user_tweets self (world i) u start_time = (tweets, tr1)" .
  obtain r2 tr2 where
    f: "fetch_users self world start_time (Suc i) users (m(lower u \<mapsto> tweets)) = (r2, tr2)"
    by (cases "fetch_users self world start_time (Suc i) users (m(lower u \<mapsto> tweets))")
  from assms t r1 f have "r2 = Inr m'" "tr = tr1 @ tr2" by simp_all
  with t r1 g f show ?thesis by simp
qed

lemma fetch_users_dom:
  "fetch_users self world start_time i users m = (Inr m', tr) \<Longrightarrow>
   dom m' = dom m \<union> lower ` set users"
proof (induction users arbitrary: i m tr)
  case Nil
  then show ?case by simp
next
  case (Cons u users)
  from fetch_users_Cons[OF Cons.prems] obtain tr2 where
    "fetch_users self world start_time (Suc i) users
       (m(lower u \<mapsto> fst (get_user_tweets self (world i) u start_time))) = (Inr m', tr2)"
    by blast
  from Cons.IH[OF this] show ?case by auto
qed

lemma fetch_users_other:
  "fetch_users self world start_time i users m = (Inr m', tr) \<Longrightarrow>
   k \<notin> lower ` set users \<Longrightarrow> m' k = m k"
proof (induction users arbitrary: i m tr)
  case Nil
  then show ?case by simp
next
  case (Cons u users)
  from fetch_users_Cons[OF Cons.prems(1)] obtain tr2 where
    "fetch_users self world start_time (Suc i) users
       (m(lower u \<mapsto> fst (get_user_tweets self (world i) u start_time))) = (Inr m', tr2)"
    by blast
  from Cons.IH[OF this] Cons.prems(2) show ?case by auto
qed

lemma fetch_users_lookup:
  "fetch_users self world start_time i users m = (Inr m', tr) \<Longrightarrow>
   distinct (map lower users) \<Longrightarrow> j < length users \<Longrightarrow>
   m' (lower (users ! j))
     = Some (fst (get_user_tweets self (world (i + j)) (users ! j) start_time))"
proof (induction users arbitrary: i j m tr)
  case Nil
  then show ?case by simp
next
  case (Cons u users)
  from fetch_users_Cons[OF Cons.prems(1)] obtain tr2 where
    f: "fetch_users self world start_time (Suc i) users
       (m(lower u \<mapsto> fst (get_user_tweets self (world i) u start_time))) = (Inr m', tr2)"
    by blast
  show ?case
  proof (cases j)
    case 0
    from Cons.prems(2) have "lower u \<notin> lower ` set users" by auto
    from fetch_users_other[OF f this] 0 show ?thesis by simp
  next
    case (Suc j')
    with Cons.prems have "distinct (map lower users)" "j' < length users" by auto
    from Cons.IH[OF f this] Suc show ?thesis by simp
  qed
qed

lemma fetch_users_returns:
  "\<forall>j < length users. setup_driver (world (i + j)) \<noteq> None \<or> quit_outcome (world (i + j)) = None
   \<Longrightarrow> \<exists>m' tr. fetch_users self world start_time i users m = (Inr m', tr)"
proof (induction users arbitrary: i m)
  case Nil
  then show ?case by simp
next
  case (Cons u users)
  from Cons.prems[rule_format, of 0]
  have q: "setup_driver (world i) \<noteq> None \<or> quit_outcome (world i) = None" by simp
  have "\<forall>j < length users. setup_driver (world (Suc i + j)) \<noteq> None
          \<or> quit_outcome (world (Suc i + j)) = None"
    using Cons.prems by auto
  from Cons.IH[OF this, of "m(lower u \<mapsto> fst (get_user_tweets self (world i) u start_time))"]
  obtain m' tr where
    "fetch_users self world start_time (Suc i) users
       (m(lower u \<mapsto> fst (get_user_tweets self (world i) u start_time))) = (Inr m', tr)"
    by blast
  with user_task_quiet[OF q, of self u start_time] show ?case by simp
qed

lemma fetch_users_order:
  "fetch_users self world start_time i users m = (Inr m', tr) \<Longrightarrow>
   tr = concat (map (\<lambda>(j, u). snd (get_user_tweets self (world j) u start_time))
                  (zip [i ..< i + length users] users))
   \<and> m' = foldl (\<lambda>acc (j, u). acc(lower u \<mapsto> fst (get_user_tweets self (world j) u start_time)))
             m (zip [i ..< i + length users] users)"
proof (induction users arbitrary: i m tr)
  case Nil
  then show ?case by simp
next
  case (Cons u users)
  from fetch_users_Cons[OF Cons.prems] obtain tr2 where
    f: "fetch_users self world start_time (Suc i) users
       (m(lower u \<mapsto> fst (get_user_tweets self (world i) u start_time))) = (Inr m', tr2)"
    and tr: "tr = snd (get_user_tweets self (world i) u start_time) @ tr2"
    by blast
  have "[i ..< i + length (u # users)] = i # [Suc i ..< Suc i + length users]"
    by (subst upt_rec) simp
  then have z: "zip [i ..< i + length (u # users)] (u # users)
             = (i, u) # zip [Suc i ..< Suc i + length users] users"
    by (simp del: upt_Suc)
  from Cons.IH[OF f] tr show ?case unfolding z by simp
qed

lemma get_user_tweets_failure:
  assumes "setup_driver b \<noteq> None \<or> cookies self = None \<or> cookies self = Some [] \<or>
           root_get b \<noteq> None \<or> refresh b \<noteq> None \<or> login_marker b \<noteq> None \<or>
           page_get b \<noteq> None \<or> tweet_wait b \<noteq> None \<or> (\<exists>e. initial_elements b = Inl e)"
  shows "fst (get_user_tweets self b username start_time) = []"
  using assms
  by (auto simp: get_user_tweets_def get_user_tweets_try_def apply_cookies_def Let_def
           split: option.splits prod.splits sum.splits if_splits bool.splits)

lemma get_user_tweets_raise:
  "get_user_tweets_try self b username start_time = (drv, tr, Inl e) \<Longrightarrow>
   fst (get_user_tweets self b username start_time) = []"
  by (simp add: get_user_tweets_def)

lemma collect_and_store_returns:
  assumes "collect_and_store self hours ct now world = (self', Inr result, tr)"
  shows "\<exists>start_time. start_time_of now hours = Inr start_time \<and>
           fetch_users self world start_time 0 (twitter_users self)
             (empty_by_user (twitter_users self)) = (Inr result, tr) \<and>
           self' = self\<lparr>tweets_cache := (tweets_cache self)(Tweets hours \<mapsto> result),
                        tweets_cache_time := (tweets_cache_time self)(Tweets hours \<mapsto> ct)\<rparr>"
  using assms by (auto simp: collect_and_store_def split: sum.splits prod.splits)

lemma collect_and_store_raises:
  "collect_and_store self hours ct now world = (self', Inl e, tr) \<Longrightarrow> self' = self"
  by (auto simp: collect_and_store_def split: sum.splits prod.splits)

lemma get_recent_tweets_raises:
  "get_recent_tweets self hours ct now world = (self', Inl e, tr) \<Longrightarrow>
   self' = self \<and> cache_lookup self hours ct = None"
  by (auto simp: get_recent_tweets_def split: option.splits dest: collect_and_store_raises)

lemma get_recent_tweets_miss:
  "cache_lookup self hours ct = None \<Longrightarrow>
   get_recent_tweets self hours ct now world = collect_and_store self hours ct now world"
  by (simp add: get_recent_tweets_def)

lemma get_recent_tweets_complete:
  assumes "cache_complete self"
      and "get_recent_tweets self hours ct now world = (self', r, tr)"
  shows "cache_complete self' \<and> twitter_users self' = twitter_users self
         \<and> (\<forall>result. r = Inr result \<longrightarrow> dom result = lower ` set (twitter_users self))"
proof (cases "cache_lookup self hours ct")
  case None
  with assms(2) have c: "collect_and_store self hours ct now world = (self', r, tr)"
    by (simp add: get_recent_tweets_def)
  show ?thesis
  proof (cases r)
    case (Inl e)
    with c collect_and_store_raises have "self' = self" by blast
    with assms(1) Inl show ?thesis by simp
  next
    case (Inr result)
    from collect_and_store_returns[OF c[unfolded Inr]] obtain st where
      f: "fetch_users self world st 0 (twitter_users self)
             (empty_by_user (twitter_users self)) = (Inr result, tr)" and
      s: "self' = self\<lparr>tweets_cache := (tweets_cache self)(Tweets hours \<mapsto> result),
                        tweets_cache_time := (tweets_cache_time self)(Tweets hours \<mapsto> ct)\<rparr>"
      by blast
    from fetch_users_dom[OF f] have "dom result = lower ` set (twitter_users self)"
      by (simp add: dom_empty_by_user)
    with s assms(1) Inr show ?thesis by (simp add: cache_complete_def)
  qed
next
  case (Some cached)
  with assms(2) have e: "self' = self" "r = Inr cached" by (simp_all add: get_recent_tweets_def)
  from Some have "tweets_cache self (Tweets hours) = Some cached"
    by (auto simp: cache_lookup_def split: option.splits if_splits)
  with assms(1) e show ?thesis by (auto simp: cache_complete_def)
qed

lemma get_recent_tweets_no_raise:
  assumes "(\<exists>cached. cache_lookup self hours ct = Some cached) \<or>
           ((\<exists>start_time. start_time_of now hours = Inr start_time) \<and>
            (\<forall>j < length (twitter_users self).
               setup_driver (world j) \<noteq> None \<or> quit_outcome (world j) = None))"
  shows "\<exists>result. fst (snd (get_recent_tweets self hours ct now world)) = Inr result"
proof (cases "cache_lookup self hours ct")
  case (Some cached)
  then show ?thesis by (simp add: get_recent_tweets_def)
next
  case None
  with assms obtain st where st: "start_time_of now hours = Inr st" and
    q: "\<forall>j < length (twitter_users self).
               setup_driver (world j) \<noteq> None \<or> quit_outcome (world j) = None" by auto
  from q have "\<forall>j < length (twitter_users self).
               setup_driver (world (0 + j)) \<noteq> None \<or> quit_outcome (world (0 + j)) = None"
    by simp
  from fetch_users_returns[OF this, of self st "empty_by_user (twitter_users self)"]
  obtain m' tr where "fetch_users self world st 0 (twitter_users self)
             (empty_by_user (twitter_users self)) = (Inr m', tr)" by blast
  with None st show ?thesis by (simp add: get_recent_tweets_def collect_and_store_def)
qed

lemma start_time_of_Inr:
  "start_time_of now hours = Inr start_time \<longleftrightarrow>
     - 999999999 \<le> hours div 24 \<and> hours div 24 \<le> 999999999 \<and>
     datetime_min \<le> now - hours * 3600000000 \<and> now - hours * 3600000000 \<le> datetime_max \<and>
     start_time = now - hours * 3600000000"
  by (auto simp: start_time_of_def timedelta_hours_def datetime_sub_def seconds_def)

lemma start_time_24: "start_time_of 1000 24 = Inr (- 86399999000)"
  by (simp add: start_time_of_Inr datetime_min_def datetime_max_def)

text \<open>
  C1 (amended). Whenever \<open>get_recent_tweets\<close> returns, its mapping has every configured
  account's lower-cased handle as a key (also when it is served from a cache whose
  entries past runs have written); after a miss, with handles that differ
  case-insensitively, the entry of the \<open>j\<close>-th account is what the task of that account
  returned in its own session \<open>world j\<close>, whatever the other sessions do; and that task
  returns the empty list when the driver cannot be set up, the session is missing or
  rejected, a page load or the wait for the first tweet fails or times out, or any
  exception is raised inside its \<open>try\<close> block. A task returns, and does not raise, when
  it acquired no handle or \<open>driver.quit()\<close> returns; and \<open>get_recent_tweets\<close> returns,
  and does not raise, when the cache is hit, or when \<open>start_time\<close> is a datetime and
  that holds of every task.
\<close>

theorem C1_every_account_has_entry:
  "(cache_complete self \<longrightarrow>
      cache_complete (fst (get_recent_tweets self hours ct now world))
      \<and> (\<forall>result. fst (snd (get_recent_tweets self hours ct now world)) = Inr result \<longrightarrow>
            dom result = lower ` set (twitter_users self)))
   \<and> (cache_lookup self hours ct = None \<and> distinct (map lower (twitter_users self)) \<longrightarrow>
        (\<forall>result start_time.
           fst (snd (get_recent_tweets self hours ct now world)) = Inr result \<and>
           start_time_of now hours = Inr start_time \<longrightarrow>
           (\<forall>j < length (twitter_users self).
              result (lower (twitter_users self ! j))
                = Some (fst (get_user_tweets self (world j) (twitter_users self ! j)
                               start_time)))))
   \<and> (setup_driver b \<noteq> None \<or> cookies self = None \<or> cookies self = Some [] \<or>
        root_get b \<noteq> None \<or> refresh b \<noteq> None \<or> login_marker b \<noteq> None \<or>
        page_get b \<noteq> None \<or> tweet_wait b \<noteq> None \<or> (\<exists>e. initial_elements b = Inl e)
        \<longrightarrow> fst (get_user_tweets self b username st) = [])
   \<and> (\<forall>drv tr e. get_user_tweets_try self b username st = (drv, tr, Inl e)
        \<longrightarrow> fst (get_user_tweets self b username st) = [])
   \<and> (setup_driver b \<noteq> None \<or> quit_outcome b = None \<longrightarrow>
        fst (user_task self b username st) = Inr (fst (get_user_tweets self b username st)))
   \<and> ((\<exists>cached. cache_lookup self hours ct = Some cached) \<or>
        ((\<exists>start_time. start_time_of now hours = Inr start_time) \<and>
         (\<forall>j < length (twitter_users self).
            setup_driver (world j) \<noteq> None \<or> quit_outcome (world j) = None))
        \<longrightarrow> (\<exists>result. fst (snd (get_recent_tweets self hours ct now world)) = Inr result))"
proof -
  obtain self' r tr where
    g: "get_recent_tweets self hours ct now world = (self', r, tr)"
    by (cases "get_recent_tweets self hours ct now world") 
  have 1: "cache_complete self \<longrightarrow>
      cache_complete (fst (get_recent_tweets self hours ct now world))
      \<and> (\<forall>result. fst (snd (get_recent_tweets self hours ct now world)) = Inr result \<longrightarrow>
            dom result = lower ` set (twitter_users self))"
    using get_recent_tweets_complete[OF _ g] g by simp
  have 2: "cache_lookup self hours ct = None \<and> distinct (map lower (twitter_users self)) \<longrightarrow>
        (\<forall>result start_time.
           fst (snd (get_recent_tweets self hours ct now world)) = Inr result \<and>
           start_time_of now hours = Inr start_time \<longrightarrow>
           (\<forall>j < length (twitter_users self).
              result (lower (twitter_users self ! j))
                = Some (fst (get_user_tweets self (world j) (twitter_users self ! j)
                               start_time))))"
  proof (intro impI allI, elim conjE)
    fix result start_time j
    assume miss: "cache_lookup self hours ct = None"
      and d: "distinct (map lower (twitter_users self))"
      and res: "fst (snd (get_recent_tweets self hours ct now world)) = Inr result"
      and st: "start_time_of now hours = Inr start_time"
      and j: "j < length (twitter_users self)"
    from miss g res have "collect_and_store self hours ct now world = (self', Inr result, tr)"
      by (simp add: get_recent_tweets_def)
    from collect_and_store_returns[OF this] st have
      "fetch_users self world start_time 0 (twitter_users self)
             (empty_by_user (twitter_users self)) = (Inr result, tr)" by auto
    from fetch_users_lookup[OF this d j]
    show "result (lower (twitter_users self ! j))
                = Some (fst (get_user_tweets self (world j) (twitter_users self ! j)
                               start_time))"
      by simp
  qed
  have 5: "setup_driver b \<noteq> None \<or> quit_outcome b = None \<longrightarrow>
        fst (user_task self b username st) = Inr (fst (get_user_tweets self b username st))"
  proof
    assume "setup_driver b \<noteq> None \<or> quit_outcome b = None"
    from user_task_quiet[OF this, of self username st]
    show "fst (user_task self b username st) = Inr (fst (get_user_tweets self b username st))"
      by simp
  qed
  from 1 2 5 show ?thesis
    using get_user_tweets_failure[of b self username st]
          get_recent_tweets_no_raise[of self hours ct now world]
    by (simp add: get_user_tweets_raise)
qed

text \<open>
  C1 as stated fails: for a window of 20000000 hours the computation of \<open>start_time\<close>
  raises \<open>OverflowError\<close>, which reaches the caller before any browser call; and when
  \<open>driver.quit()\<close> raises in a task, that exception reaches the caller.
\<close>

theorem C1_counterexample:
  "get_recent_tweets (logged_in_client [''Alice'', ''Bob'']) 20000000 1000 1000 two_account_world
     = (logged_in_client [''Alice'', ''Bob''], Inl OverflowError, [])
   \<and> fst (snd (get_recent_tweets (logged_in_client [''Alice'']) 24 1000 1000 quit_fails_world))
     = Inl OtherException"
proof -
  have o: "start_time_of 1000 20000000 = Inl OverflowError"
    by (simp add: start_time_of_def timedelta_hours_def datetime_sub_def seconds_def
          datetime_min_def)
  have 1: "get_recent_tweets (logged_in_client [''Alice'', ''Bob'']) 20000000 1000 1000
             two_account_world
     = (logged_in_client [''Alice'', ''Bob''], Inl OverflowError, [])"
    by (simp add: get_recent_tweets_def cache_lookup_def collect_and_store_def o
          logged_in_client_def)
  have q: "user_task (logged_in_client [''Alice'']) (quit_fails_world 0) ''Alice''
             (- 86399999000)
           = (Inl OtherException,
              snd (get_user_tweets (logged_in_client [''Alice'']) (quit_fails_world 0) ''Alice''
                     (- 86399999000)))"
    by (rule user_task_raises) (simp_all add: quit_fails_world_def open_page_def)
  have m: "cache_lookup (logged_in_client [''Alice'']) 24 1000 = None"
    "twitter_users (logged_in_client [''Alice'']) = [''Alice'']"
    by (simp_all add: cache_lookup_def logged_in_client_def)
  have 2: "fst (snd (get_recent_tweets (logged_in_client [''Alice'']) 24 1000 1000
                       quit_fails_world)) = Inl OtherException"
    by (simp add: get_recent_tweets_def collect_and_store_def start_time_24 m q)
  from 1 2 show ?thesis by simp
qed

lemma three_rounds_run:
  assumes "start_time \<le> 100"
  shows "get_user_tweets (logged_in_client users)
           (open_page [plain_tweet ''https://twitter.com/u/status/1'' 100] three_rounds)
           username start_time
         = ([build_tweet_data ''1'' [] 100 [] ''https://twitter.com/u/status/1'' False None,
             build_tweet_data ''2'' [] 101 [] ''https://twitter.com/u/status/2'' False None],
            [SetupDriver, GetPage ''https://twitter.com'', Refresh, WaitLogin,
             GetPage (''https://twitter.com/'' @ username), WaitTweet, FindTweets,
             ExecuteScript, ExecuteScript, FindTweets,
             ExecuteScript, ExecuteScript, FindTweets, Quit])"
proof -
  let ?d1 = "build_tweet_data ''1'' [] 100 [] ''https://twitter.com/u/status/1'' False None"
  let ?d2 = "build_tweet_data ''2'' [] 101 [] ''https://twitter.com/u/status/2'' False None"
  have sl: "scroll_loop username start_time three_rounds 0 max_scrolls {''1''} [?d1]
        = ([ExecuteScript, ExecuteScript, FindTweets, ExecuteScript, ExecuteScript, FindTweets],
           Inr [?d1, ?d2])"
    using assms
    by (simp add: max_scrolls_def eval_nat_numeral three_rounds_def quiet_round_def
          extract_plain_tweet is_digit_def)
  show ?thesis
    using assms sl
    by (simp add: get_user_tweets_def get_user_tweets_try_def open_page_def apply_cookies_def
          logged_in_client_def extract_plain_tweet is_digit_def)
qed

lemma page_timeout_run:
  "get_user_tweets (logged_in_client users)
     ((open_page els rs)\<lparr>page_get := Some e\<rparr>) username start_time
   = ([], [SetupDriver, GetPage ''https://twitter.com'', Refresh, WaitLogin,
           GetPage (''https://twitter.com/'' @ username), Quit])"
  by (simp add: get_user_tweets_def get_user_tweets_try_def open_page_def apply_cookies_def
        logged_in_client_def)

lemma get_user_tweets_first_call:
  "\<exists>calls. snd (get_user_tweets self b username start_time) = SetupDriver # calls"
proof -
  obtain drv tr r where t: "get_user_tweets_try self b username start_time = (drv, tr, r)"
    by (cases "get_user_tweets_try self b username start_time")
  from get_user_tweets_try_trace[OF t] obtain tr' where "tr = SetupDriver # tr'" by blast
  with t show ?thesis by (simp add: get_user_tweets_def)
qed

text \<open>
  C9 (amended). In a run that collects and returns, the tasks run strictly one after the
  other in the configured order: the browser calls of the run are the browser calls of
  the first account's task, followed by those of the second account's task, and so on
  (each task's calls begin with \<open>SetupDriver\<close>, so the next account's work starts only
  after the previous task has made its last call), and the mapping is the initial
  mapping updated with each task's result under its lower-cased handle, in that order.
\<close>

theorem C9_tasks_in_sequence:
  "(cache_lookup self hours ct = None \<and> start_time_of now hours = Inr start_time \<and>
    fst (snd (get_recent_tweets self hours ct now world)) = Inr result \<longrightarrow>
      snd (snd (get_recent_tweets self hours ct now world))
        = concat (map (\<lambda>(j, u). snd (get_user_tweets self (world j) u start_time))
                    (zip [0 ..< length (twitter_users self)] (twitter_users self)))
      \<and> result
        = foldl (\<lambda>acc (j, u).
                   acc(lower u \<mapsto> fst (get_user_tweets self (world j) u start_time)))
            (empty_by_user (twitter_users self))
            (zip [0 ..< length (twitter_users self)] (twitter_users self)))
   \<and> (\<exists>calls. snd (get_user_tweets self b username st) = SetupDriver # calls)"
proof -
  have "snd (snd (get_recent_tweets self hours ct now world))
        = concat (map (\<lambda>(j, u). snd (get_user_tweets self (world j) u start_time))
                    (zip [0 ..< length (twitter_users self)] (twitter_users self)))
      \<and> result
        = foldl (\<lambda>acc (j, u).
                   acc(lower u \<mapsto> fst (get_user_tweets self (world j) u start_time)))
            (empty_by_user (twitter_users self))
            (zip [0 ..< length (twitter_users self)] (twitter_users self))"
    if miss: "cache_lookup self hours ct = None"
      and st: "start_time_of now hours = Inr start_time"
      and res: "fst (snd (get_recent_tweets self hours ct now world)) = Inr result"
  proof -
    obtain self' tr where
      "get_recent_tweets self hours ct now world = (self', Inr result, tr)"
      using res by (cases "get_recent_tweets self hours ct now world") auto
    with miss have c: "collect_and_store self hours ct now world = (self', Inr result, tr)"
      and t: "snd (snd (get_recent_tweets self hours ct now world)) = tr"
      by (simp_all add: get_recent_tweets_def)
    from collect_and_store_returns[OF c] st have
      "fetch_users self world start_time 0 (twitter_users self)
             (empty_by_user (twitter_users self)) = (Inr result, tr)" by auto
    from fetch_users_order[OF this] t show ?thesis by simp
  qed
  with get_user_tweets_first_call[of self b username st] show ?thesis by blast
qed

text \<open>
  C9 as stated fails: with two accounts, the first browser call of the second account's
  task comes after \<open>Quit\<close>, the last call of the first account's task; the second
  account's work is not dispatched while the first is running.
\<close>

theorem C9_counterexample:
  "snd (snd (get_recent_tweets (logged_in_client [''Alice'', ''Bob'']) 24 1000 1000
               two_account_world))
     = [SetupDriver, GetPage ''https://twitter.com'', Refresh, WaitLogin,
        GetPage ''https://twitter.com/Alice'', Quit,
        SetupDriver, GetPage ''https://twitter.com'', Refresh, WaitLogin,
        GetPage ''https://twitter.com/Bob'', WaitTweet, FindTweets,
        ExecuteScript, ExecuteScript, FindTweets,
        ExecuteScript, ExecuteScript, FindTweets, Quit]"
proof -
  let ?c = "logged_in_client [''Alice'', ''Bob'']"
  have m: "cache_lookup ?c 24 1000 = None" "twitter_users ?c = [''Alice'', ''Bob'']"
    by (simp_all add: cache_lookup_def logged_in_client_def)
  have w: "two_account_world 0 = (open_page [] three_rounds)\<lparr>page_get := Some TimeoutException\<rparr>"
    "two_account_world (Suc 0)
       = open_page [plain_tweet ''https://twitter.com/u/status/1'' 100] three_rounds"
    by (simp_all add: two_account_world_def)
  have q: "quit_outcome (two_account_world 0) = None"
    "quit_outcome (two_account_world (Suc 0)) = None"
    by (simp_all add: two_account_world_def open_page_def)
  have a: "user_task ?c (two_account_world 0) ''Alice'' (- 86399999000)
        = (Inr [], [SetupDriver, GetPage ''https://twitter.com'', Refresh, WaitLogin,
           GetPage ''https://twitter.com/Alice'', Quit])"
    using user_task_quiet[of "two_account_world 0" ?c "''Alice''" "- 86399999000"] q(1)
    by (simp add: w(1) page_timeout_run)
  have b: "user_task ?c (two_account_world (Suc 0)) ''Bob'' (- 86399999000)
        = (Inr [build_tweet_data ''1'' [] 100 [] ''https://twitter.com/u/status/1'' False None,
             build_tweet_data ''2'' [] 101 [] ''https://twitter.com/u/status/2'' False None],
            [SetupDriver, GetPage ''https://twitter.com'', Refresh, WaitLogin,
             GetPage ''https://twitter.com/Bob'', WaitTweet, FindTweets,
             ExecuteScript, ExecuteScript, FindTweets,
             ExecuteScript, ExecuteScript, FindTweets, Quit])"
    using user_task_quiet[of "two_account_world (Suc 0)" ?c "''Bob''" "- 86399999000"] q(2)
    by (simp add: w(2) three_rounds_run)
  show ?thesis
    by (simp add: get_recent_tweets_def collect_and_store_def start_time_24 m a b)
qed

lemma two_account_returns:
  "\<exists>result. fst (snd (get_recent_tweets (logged_in_client [''Alice'', ''Bob'']) 24 1000 1000
                         two_account_world)) = Inr result"
  by (rule get_recent_tweets_no_raise)
     (simp add: start_time_24 two_account_world_def open_page_def)

theorem C1_every_account_has_entry_witness:
  "\<exists>result.
      fst (snd (get_recent_tweets (logged_in_client [''Alice'', ''Bob'']) 24 1000 1000
                  two_account_world)) = Inr result
      \<and> result ''alice'' = Some []
      \<and> result ''bob''
          = Some (fst (get_user_tweets (logged_in_client [''Alice'', ''Bob''])
                         (two_account_world 1) ''Bob'' (- 86399999000)))
      \<and> dom result = {''alice'', ''bob''}"
proof -
  let ?c = "logged_in_client [''Alice'', ''Bob'']"
  let ?st = "- 86399999000 :: int"
  have l: "lower ''Alice'' = ''alice''" "lower ''Bob'' = ''bob''" by code_simp+
  have h1: "cache_lookup ?c 24 1000 = None"
    by (simp add: cache_lookup_def logged_in_client_def)
  have u: "twitter_users ?c = [''Alice'', ''Bob'']" by (simp add: logged_in_client_def)
  have h2: "distinct (map lower (twitter_users ?c))" by (simp add: u l)
  have h3: "cache_complete ?c"
    by (simp add: cache_complete_def logged_in_client_def)
  have h4: "page_get (two_account_world 0) \<noteq> None"
    by (simp add: two_account_world_def open_page_def)
  have h5: "(\<exists>start_time. start_time_of 1000 24 = Inr start_time) \<and>
         (\<forall>j < length (twitter_users ?c).
            setup_driver (two_account_world j) \<noteq> None \<or> quit_outcome (two_account_world j) = None)"
    by (simp add: start_time_24 two_account_world_def open_page_def)
  note t = C1_every_account_has_entry[of ?c 24 1000 1000 two_account_world
             "two_account_world 0" "''Alice''" ?st]
  from t h5 obtain result where
    r: "fst (snd (get_recent_tweets ?c 24 1000 1000 two_account_world)) = Inr result"
    by blast
  from t[THEN conjunct1] h3 r have d: "dom result = lower ` set (twitter_users ?c)" by blast
  have a: "\<forall>j < length (twitter_users ?c).
              result (lower (twitter_users ?c ! j))
                = Some (fst (get_user_tweets ?c (two_account_world j) (twitter_users ?c ! j) ?st))"
    using t[THEN conjunct2, THEN conjunct1] h1 h2 r start_time_24 by blast
  have e: "fst (get_user_tweets ?c (two_account_world 0) ''Alice'' ?st) = []"
    using t[THEN conjunct2, THEN conjunct2, THEN conjunct1] h4 by blast
  from a[rule_format, of 0] a[rule_format, of 1] d e r show ?thesis
    by (simp add: u l)
qed

theorem C9_tasks_in_sequence_witness:
  "\<exists>result.
      fst (snd (get_recent_tweets (logged_in_client [''Alice'', ''Bob'']) 24 1000 1000
                  two_account_world)) = Inr result
      \<and> snd (snd (get_recent_tweets (logged_in_client [''Alice'', ''Bob'']) 24 1000 1000
                  two_account_world))
        = snd (get_user_tweets (logged_in_client [''Alice'', ''Bob''])
                 (two_account_world 0) ''Alice'' (- 86399999000))
          @ snd (get_user_tweets (logged_in_client [''Alice'', ''Bob''])
                 (two_account_world 1) ''Bob'' (- 86399999000))"
proof -
  let ?c = "logged_in_client [''Alice'', ''Bob'']"
  let ?st = "- 86399999000 :: int"
  have h1: "cache_lookup ?c 24 1000 = None"
    by (simp add: cache_lookup_def logged_in_client_def)
  have u: "twitter_users ?c = [''Alice'', ''Bob'']" by (simp add: logged_in_client_def)
  from two_account_returns obtain result where
    r: "fst (snd (get_recent_tweets ?c 24 1000 1000 two_account_world)) = Inr result"
    by blast
  have z: "zip [0 ..< length [''Alice'', ''Bob'']] [''Alice'', ''Bob'']
             = [(0, ''Alice''), (1, ''Bob'')]"
    by (simp add: upt_rec)
  from C9_tasks_in_sequence[of ?c 24 1000 1000 ?st two_account_world result
         "two_account_world 0" "''Alice''" ?st, THEN conjunct1] h1 start_time_24 r
  have "snd (snd (get_recent_tweets ?c 24 1000 1000 two_account_world))
        = concat (map (\<lambda>(j, u). snd (get_user_tweets ?c (two_account_world j) u ?st))
                    (zip [0 ..< length (twitter_users ?c)] (twitter_users ?c)))"
    by blast
  then have "snd (snd (get_recent_tweets ?c 24 1000 1000 two_account_world))
        = snd (get_user_tweets ?c (two_account_world 0) ''Alice'' ?st)
          @ snd (get_user_tweets ?c (two_account_world 1) ''Bob'' ?st)"
    by (simp add: u z)
  with r show ?thesis by blast
qed

section \<open>The recency window\<close>

lemma in_window_build:
  "in_window start_time (build_tweet_data i t c im u r oa) = (start_time \<le> c)"
  by (simp add: in_window_def build_tweet_data_def)

lemma extract_fields_window:
  "extract_fields username start_time el tweet_url tweet_id = Inr (Some d)
     \<Longrightarrow> in_window start_time d"
  by (auto simp: extract_fields_def in_window_build
           split: prod.splits sum.splits pydatetime.splits if_splits)

lemma extract_element_window:
  "extract_element username start_time ids el = (ids', Inr (Some d)) \<Longrightarrow> in_window start_time d"
  by (auto simp: extract_element_def
           split: sum.splits list.splits option.splits if_splits dest: extract_fields_window)

lemma process_tweet_elements_window:
  "process_tweet_elements username start_time ids els = (ids', out) \<Longrightarrow>
     \<forall>d \<in> set out. in_window start_time d"
proof (induction els arbitrary: ids ids' out)
  case Nil
  then show ?case by simp
next
  case (Cons el els)
  obtain ids1 r where e: "extract_element username start_time ids el = (ids1, r)"
    by (cases "extract_element username start_time ids el")
  obtain ids2 out2 where
    p: "process_tweet_elements username start_time ids1 els = (ids2, out2)"
    by (cases "process_tweet_elements username start_time ids1 els")
  from Cons.IH[OF p] have ih: "\<forall>d \<in> set out2. in_window start_time d" .
  show ?case
  proof (cases r)
    case (Inl x)
    with Cons.prems e p ih show ?thesis by simp
  next
    case (Inr o1)
    show ?thesis
    proof (cases o1)
      case None
      with Inr Cons.prems e p ih show ?thesis by simp
    next
      case (Some d)
      with Inr e have "in_window start_time d" by (auto dest: extract_element_window)
      with Some Inr Cons.prems e p ih show ?thesis by auto
    qed
  qed
qed

lemma scroll_loop_window:
  "scroll_loop username start_time rs k n ids acc = (tr, Inr ts) \<Longrightarrow>
   \<forall>d \<in> set acc. in_window start_time d \<Longrightarrow>
   \<forall>d \<in> set ts. in_window start_time d"
proof (induction n arbitrary: k ids acc tr)
  case 0
  then show ?case by simp
next
  case (Suc n)
  from Suc.prems(1) obtain els where
    els: "new_tweet_elements (rs k) = Inr els"
    by (auto split: option.splits sum.splits)
  obtain ids1 new where p: "process_tweet_elements username start_time ids els = (ids1, new)"
    by (cases "process_tweet_elements username start_time ids els")
  from process_tweet_elements_window[OF p] Suc.prems(2)
  have w: "\<forall>d \<in> set (acc @ new). in_window start_time d" by auto
  show ?case
  proof (cases "new = []")
    case True
    with Suc.prems(1) els p have "ts = acc @ new"
      by (auto split: option.splits)
    with w show ?thesis by simp
  next
    case False
    with Suc.prems(1) els p obtain tr' where
      "scroll_loop username start_time rs (Suc k) n ids1 (acc @ new) = (tr', Inr ts)"
      by (auto split: option.splits prod.splits)
    from Suc.IH[OF this w] show ?thesis .
  qed
qed

lemma get_user_tweets_window:
  "\<forall>d \<in> set (fst (get_user_tweets self b username start_time)). in_window start_time d"
proof -
  obtain drv tr r where t: "get_user_tweets_try self b username start_time = (drv, tr, r)"
    by (cases "get_user_tweets_try self b username start_time")
  show ?thesis
  proof (cases r)
    case (Inl e)
    with t show ?thesis by (simp add: get_user_tweets_def)
  next
    case (Inr ts)
    show ?thesis
    proof (cases "ts = []")
      case True
      with t Inr show ?thesis by (simp add: get_user_tweets_def)
    next
      case False
      with t Inr get_user_tweets_try_loop obtain els ids initial tr' where
        p: "process_tweet_elements username start_time {} els = (ids, initial)" and
        l: "scroll_loop username start_time (rounds b) 0 max_scrolls ids initial = (tr', Inr ts)"
        by blast
      from scroll_loop_window[OF l process_tweet_elements_window[OF p]] t Inr
      show ?thesis by (simp add: get_user_tweets_def)
    qed
  qed
qed

lemma foldl_lower_values:
  "\<forall>k ts. m0 k = Some ts \<longrightarrow> ts = [] \<Longrightarrow>
   foldl (\<lambda>m username. m(lower username \<mapsto> [])) m0 users k = Some ts \<Longrightarrow> ts = []"
proof (induction users arbitrary: m0)
  case Nil
  then show ?case by simp
next
  case (Cons u users)
  have "\<forall>k ts. (m0(lower u \<mapsto> [])) k = Some ts \<longrightarrow> ts = []"
    using Cons.prems(1) by (auto split: if_splits)
  from Cons.IH[OF this] Cons.prems(2) show ?case by simp
qed

lemma empty_by_user_values:
  "empty_by_user users k = Some ts \<Longrightarrow> ts = []"
  unfolding empty_by_user_def
  by (rule foldl_lower_values[of Map.empty]) simp_all

lemma fetch_users_window:
  "fetch_users self world start_time i users m = (Inr m', tr) \<Longrightarrow>
   \<forall>k ts. m k = Some ts \<longrightarrow> (\<forall>d \<in> set ts. in_window start_time d) \<Longrightarrow>
   \<forall>k ts. m' k = Some ts \<longrightarrow> (\<forall>d \<in> set ts. in_window start_time d)"
proof (induction users arbitrary: i m tr)
  case Nil
  then show ?case by simp
next
  case (Cons u users)
  from fetch_users_Cons[OF Cons.prems(1)] obtain tr2 where
    f: "fetch_users self world start_time (Suc i) users
       (m(lower u \<mapsto> fst (get_user_tweets self (world i) u start_time))) = (Inr m', tr2)"
    by blast
  have "\<forall>k ts. (m(lower u \<mapsto> fst (get_user_tweets self (world i) u start_time))) k = Some ts
          \<longrightarrow> (\<forall>d \<in> set ts. in_window start_time d)"
    using Cons.prems(2) get_user_tweets_window[of self "world i" u start_time]
    by (auto split: if_splits)
  from Cons.IH[OF f this] show ?case .
qed

lemma collect_window:
  assumes "cache_lookup self hours ct = None"
    and "fst (snd (get_recent_tweets self hours ct now world)) = Inr result"
    and "start_time_of now hours = Inr start_time"
  shows "\<forall>k ts. result k = Some ts \<longrightarrow> (\<forall>d \<in> set ts. in_window start_time d)"
    and "fst (get_recent_tweets self hours ct now world)
           = self\<lparr>tweets_cache := (tweets_cache self)(Tweets hours \<mapsto> result),
                   tweets_cache_time := (tweets_cache_time self)(Tweets hours \<mapsto> ct)\<rparr>"
proof -
  obtain self' tr where
    "get_recent_tweets self hours ct now world = (self', Inr result, tr)"
    using assms(2) by (cases "get_recent_tweets self hours ct now world") auto
  with assms(1) have c: "collect_and_store self hours ct now world = (self', Inr result, tr)"
    and s: "fst (get_recent_tweets self hours ct now world) = self'"
    by (simp_all add: get_recent_tweets_def)
  from collect_and_store_returns[OF c] assms(3) have
    f: "fetch_users self world start_time 0 (twitter_users self)
             (empty_by_user (twitter_users self)) = (Inr result, tr)"
    and s': "self' = self\<lparr>tweets_cache := (tweets_cache self)(Tweets hours \<mapsto> result),
                   tweets_cache_time := (tweets_cache_time self)(Tweets hours \<mapsto> ct)\<rparr>"
    by auto
  have "\<forall>k ts. empty_by_user (twitter_users self) k = Some ts \<longrightarrow>
            (\<forall>d \<in> set ts. in_window start_time d)"
    by (auto dest: empty_by_user_values)
  from fetch_users_window[OF f this]
  show "\<forall>k ts. result k = Some ts \<longrightarrow> (\<forall>d \<in> set ts. in_window start_time d)" .
  from s s' show "fst (get_recent_tweets self hours ct now world)
           = self\<lparr>tweets_cache := (tweets_cache self)(Tweets hours \<mapsto> result),
                   tweets_cache_time := (tweets_cache_time self)(Tweets hours \<mapsto> ct)\<rparr>"
    by simp
qed

lemma cache_from_runs_mono:
  "cache_from_runs runs self \<Longrightarrow> runs \<subseteq> runs' \<Longrightarrow> cache_from_runs runs' self"
  unfolding cache_from_runs_def by blast

lemma cache_lookup_entry:
  "cache_lookup self hours ct = Some cached \<Longrightarrow> tweets_cache self (Tweets hours) = Some cached"
  by (auto simp: cache_lookup_def split: option.splits if_splits)

lemma served_from_cache:
  assumes "cache_from_runs runs self" "cache_lookup self hours ct = Some cached"
  shows "get_recent_tweets self hours ct now world = (self, Inr cached, [])"
    and "\<exists>start_time. (hours, start_time) \<in> runs \<and>
           (\<forall>k ts. cached k = Some ts \<longrightarrow> (\<forall>d \<in> set ts. in_window start_time d))"
  using assms cache_lookup_entry[OF assms(2)]
  by (simp_all add: get_recent_tweets_def cache_from_runs_def)

lemma cache_from_runs_kept:
  assumes inv: "cache_from_runs runs self"
  shows "cache_from_runs
           (case start_time_of now hours of Inr s \<Rightarrow> insert (hours, s) runs | Inl e \<Rightarrow> runs)
           (fst (get_recent_tweets self hours ct now world))"
proof -
  let ?runs' = "case start_time_of now hours of Inr s \<Rightarrow> insert (hours, s) runs | Inl e \<Rightarrow> runs"
  have sub: "runs \<subseteq> ?runs'" by (auto split: sum.splits)
  obtain self' r tr where g: "get_recent_tweets self hours ct now world = (self', r, tr)"
    by (cases "get_recent_tweets self hours ct now world")
  show ?thesis
  proof (cases "cache_lookup self hours ct")
    case (Some cached)
    with g have "self' = self" by (simp add: get_recent_tweets_def)
    with g cache_from_runs_mono[OF inv sub] show ?thesis by simp
  next
    case None
    show ?thesis
    proof (cases r)
      case (Inl e)
      with g get_recent_tweets_raises have "self' = self" by blast
      with g cache_from_runs_mono[OF inv sub] show ?thesis by simp
    next
      case (Inr result)
      with g None have "collect_and_store self hours ct now world = (self', Inr result, tr)"
        by (simp add: get_recent_tweets_def)
      from collect_and_store_returns[OF this] obtain st where
        st: "start_time_of now hours = Inr st" by blast
      from g Inr have res: "fst (snd (get_recent_tweets self hours ct now world)) = Inr result"
        by simp
      note w = collect_window[OF None res st]
      have "cache_from_runs (insert (hours, st) runs)
              (self\<lparr>tweets_cache := (tweets_cache self)(Tweets hours \<mapsto> result),
                    tweets_cache_time := (tweets_cache_time self)(Tweets hours \<mapsto> ct)\<rparr>)"
        unfolding cache_from_runs_def
      proof (intro allI impI)
        fix h m
        assume a: "tweets_cache
                     (self\<lparr>tweets_cache := (tweets_cache self)(Tweets hours \<mapsto> result),
                       tweets_cache_time := (tweets_cache_time self)(Tweets hours \<mapsto> ct)\<rparr>)
                     (Tweets h) = Some m"
        show "\<exists>start_time. (h, start_time) \<in> insert (hours, st) runs \<and>
                (\<forall>k ts. m k = Some ts \<longrightarrow> (\<forall>d \<in> set ts. in_window start_time d))"
        proof (cases "h = hours")
          case True
          with a have "m = result" by simp
          with w(1) True show ?thesis by blast
        next
          case False
          with a have "tweets_cache self (Tweets h) = Some m" by simp
          with inv obtain s where "(h, s) \<in> runs"
            "\<forall>k ts. m k = Some ts \<longrightarrow> (\<forall>d \<in> set ts. in_window s d)"
            unfolding cache_from_runs_def by blast
          then show ?thesis by blast
        qed
      qed
      with w(2) st show ?thesis by simp
    qed
  qed
qed

lemma created_at_absent:
  "time_elements el = Inr [] \<or> (\<exists>r. time_elements el = Inr (Inr None # r)) \<Longrightarrow>
   created_at_of el = Inr (Aware (clock el))"
  by (auto simp: created_at_of_def)

lemma created_at_attr:
  "time_elements el = Inr (Inr (Some (Parsed (Aware t))) # r) \<Longrightarrow>
   created_at_of el = Inr (Aware t)"
  by (simp add: created_at_of_def)

lemma created_at_bad:
  "time_elements el = Inr (Inr (Some p) # r) \<Longrightarrow> p = Unparsable \<or> (\<exists>t. p = Parsed (Naive t))
   \<Longrightarrow> created_at_of el = Inl ValueError \<or> (\<exists>t. created_at_of el = Inr (Naive t))"
  by (auto simp: created_at_of_def)

lemma extract_element_created_at:
  assumes "extract_element username start_time ids el = (ids', Inr (Some d))"
  shows "\<exists>t. created_at_of el = Inr (Aware t) \<and>
             map_of d ''created_at'' = Some (DateTime t) \<and> start_time \<le> t"
  using assms
  by (auto simp: extract_element_def extract_fields_def build_tweet_data_def
           split: sum.splits list.splits option.splits if_splits prod.splits pydatetime.splits)

lemma extract_element_stamp:
  assumes "extract_element username start_time ids el = (ids', Inr (Some d))"
  shows "(time_elements el = Inr [] \<or> (\<exists>r. time_elements el = Inr (Inr None # r)) \<longrightarrow>
            map_of d ''created_at'' = Some (DateTime (clock el)) \<and> start_time \<le> clock el)
         \<and> (\<forall>t r. time_elements el = Inr (Inr (Some (Parsed (Aware t))) # r) \<longrightarrow>
               map_of d ''created_at'' = Some (DateTime t) \<and> start_time \<le> t)"
proof -
  from extract_element_created_at[OF assms] obtain t0 where
    t0: "created_at_of el = Inr (Aware t0)" "map_of d ''created_at'' = Some (DateTime t0)"
        "start_time \<le> t0" by blast
  have "map_of d ''created_at'' = Some (DateTime (clock el)) \<and> start_time \<le> clock el"
    if "time_elements el = Inr [] \<or> (\<exists>r. time_elements el = Inr (Inr None # r))"
    using created_at_absent[OF that] t0 by simp
  moreover have "map_of d ''created_at'' = Some (DateTime t) \<and> start_time \<le> t"
    if "time_elements el = Inr (Inr (Some (Parsed (Aware t))) # r)" for t r
    using created_at_attr[OF that] t0 by simp
  ultimately show ?thesis by blast
qed

lemma extract_element_too_old:
  assumes "created_at_of el = Inr (Aware t)" "t < start_time"
  shows "snd (extract_element username start_time ids el) \<noteq> Inr (Some d)"
proof
  assume a: "snd (extract_element username start_time ids el) = Inr (Some d)"
  obtain ids' where "extract_element username start_time ids el = (ids', Inr (Some d))"
    using a by (cases "extract_element username start_time ids el") auto
  from extract_element_created_at[OF this] assms show False by auto
qed

lemma extract_element_unstamped:
  assumes "created_at_of el = Inl e \<or> (\<exists>t. created_at_of el = Inr (Naive t))"
  shows "snd (extract_element username start_time ids el) \<noteq> Inr (Some d)"
proof
  assume a: "snd (extract_element username start_time ids el) = Inr (Some d)"
  obtain ids' where "extract_element username start_time ids el = (ids', Inr (Some d))"
    using a by (cases "extract_element username start_time ids el") auto
  from extract_element_created_at[OF this] assms show False by auto
qed

text \<open>
  C2. Every item of every sequence in a mapping that \<open>get_recent_tweets\<close> returns has
  \<open>created_at \<ge> start_time\<close>, the clock read at the start of the run that collected
  the mapping minus the window: for a mapping collected by this call, the \<open>start_time\<close>
  of this call; for a mapping served from the cache, the \<open>start_time\<close> of a past run
  for the same window (the cache holds only mappings of such runs, and keeps doing so).
  Every item a task returns is within its window and was extracted from a container the
  browser showed; the item's \<open>created_at\<close> is the \<open>datetime\<close> attribute of the
  container's first \<open>time\<close> element, or the clock reading when there is no such element
  or attribute; and a container whose timestamp, so determined, is before \<open>start_time\<close>,
  or cannot be read as an aware datetime, yields no item.
\<close>

theorem C2_window:
  "(cache_from_runs runs self \<longrightarrow>
      cache_from_runs
        (case start_time_of now hours of Inr s \<Rightarrow> insert (hours, s) runs | Inl e \<Rightarrow> runs)
        (fst (get_recent_tweets self hours ct now world))
      \<and> (\<forall>cached. cache_lookup self hours ct = Some cached \<longrightarrow>
            get_recent_tweets self hours ct now world = (self, Inr cached, []) \<and>
            (\<exists>start_time. (hours, start_time) \<in> runs \<and>
               (\<forall>k ts. cached k = Some ts \<longrightarrow> (\<forall>d \<in> set ts. in_window start_time d)))))
   \<and> (cache_lookup self hours ct = None \<longrightarrow>
        (\<forall>result start_time.
           fst (snd (get_recent_tweets self hours ct now world)) = Inr result \<and>
           start_time_of now hours = Inr start_time \<longrightarrow>
           (\<forall>k ts. result k = Some ts \<longrightarrow> (\<forall>d \<in> set ts. in_window start_time d))))
   \<and> (\<forall>d \<in> set (fst (get_user_tweets self b username st)).
         in_window st d \<and>
         (\<exists>k els el' ids0 ids1. batch b k = Inr els \<and> el' \<in> set els \<and>
             extract_element username st ids0 el' = (ids1, Inr (Some d))))
   \<and> (extract_element username st ids el = (ids', Inr (Some item)) \<longrightarrow>
        (time_elements el = Inr [] \<or> (\<exists>r. time_elements el = Inr (Inr None # r)) \<longrightarrow>
            map_of item ''created_at'' = Some (DateTime (clock el)) \<and> st \<le> clock el)
        \<and> (\<forall>t r. time_elements el = Inr (Inr (Some (Parsed (Aware t))) # r) \<longrightarrow>
               map_of item ''created_at'' = Some (DateTime t) \<and> st \<le> t))
   \<and> (\<forall>t r. time_elements el = Inr (Inr (Some (Parsed (Aware t))) # r) \<and> t < st \<longrightarrow>
         (\<forall>ids d. snd (extract_element username st ids el) \<noteq> Inr (Some d)))
   \<and> ((time_elements el = Inr [] \<or> (\<exists>r. time_elements el = Inr (Inr None # r))) \<and>
        clock el < st \<longrightarrow>
         (\<forall>ids d. snd (extract_element username st ids el) \<noteq> Inr (Some d)))
   \<and> (\<forall>p r. time_elements el = Inr (Inr (Some p) # r) \<and>
         (p = Unparsable \<or> (\<exists>t. p = Parsed (Naive t))) \<longrightarrow>
         (\<forall>ids d. snd (extract_element username st ids el) \<noteq> Inr (Some d)))
   \<and> (time_elements el = Inr [] \<or> (\<exists>r. time_elements el = Inr (Inr None # r))
        \<longrightarrow> created_at_of el = Inr (Aware (clock el)))
   \<and> (\<forall>t. created_at_of el = Inr (Aware t) \<and> t < st \<longrightarrow>
        (\<forall>tweet_url tweet_id d.
           extract_fields username st el tweet_url tweet_id \<noteq> Inr (Some d)))"
proof -
  have 1: "cache_from_runs runs self \<longrightarrow>
      cache_from_runs
        (case start_time_of now hours of Inr s \<Rightarrow> insert (hours, s) runs | Inl e \<Rightarrow> runs)
        (fst (get_recent_tweets self hours ct now world))
      \<and> (\<forall>cached. cache_lookup self hours ct = Some cached \<longrightarrow>
            get_recent_tweets self hours ct now world = (self, Inr cached, []) \<and>
            (\<exists>start_time. (hours, start_time) \<in> runs \<and>
               (\<forall>k ts. cached k = Some ts \<longrightarrow> (\<forall>d \<in> set ts. in_window start_time d))))"
    using cache_from_runs_kept[where runs = runs and self = self and now = now
            and hours = hours and ct = ct and world = world]
          served_from_cache(1)[of runs self hours ct _ now world]
          served_from_cache(2)[of runs self hours ct]
    by blast
  have 2: "cache_lookup self hours ct = None \<longrightarrow>
        (\<forall>result start_time.
           fst (snd (get_recent_tweets self hours ct now world)) = Inr result \<and>
           start_time_of now hours = Inr start_time \<longrightarrow>
           (\<forall>k ts. result k = Some ts \<longrightarrow> (\<forall>d \<in> set ts. in_window start_time d)))"
    using collect_window(1)[of self hours ct now world] by blast
  have 3: "\<forall>d \<in> set (fst (get_user_tweets self b username st)).
         in_window st d \<and>
         (\<exists>k els el' ids0 ids1. batch b k = Inr els \<and> el' \<in> set els \<and>
             extract_element username st ids0 el' = (ids1, Inr (Some d)))"
    using get_user_tweets_window[of self b username st]
          get_user_tweets_source[of _ self b username st]
    by blast
  have 4: "extract_element username st ids el = (ids', Inr (Some item)) \<longrightarrow>
        (time_elements el = Inr [] \<or> (\<exists>r. time_elements el = Inr (Inr None # r)) \<longrightarrow>
            map_of item ''created_at'' = Some (DateTime (clock el)) \<and> st \<le> clock el)
        \<and> (\<forall>t r. time_elements el = Inr (Inr (Some (Parsed (Aware t))) # r) \<longrightarrow>
               map_of item ''created_at'' = Some (DateTime t) \<and> st \<le> t)"
    using extract_element_stamp[of username st ids el ids' item] by blast
  have 5: "\<forall>t r. time_elements el = Inr (Inr (Some (Parsed (Aware t))) # r) \<and> t < st \<longrightarrow>
         (\<forall>ids d. snd (extract_element username st ids el) \<noteq> Inr (Some d))"
    using created_at_attr[of el] extract_element_too_old[of el _ st username] by blast
  have 6: "(time_elements el = Inr [] \<or> (\<exists>r. time_elements el = Inr (Inr None # r))) \<and>
        clock el < st \<longrightarrow>
         (\<forall>ids d. snd (extract_element username st ids el) \<noteq> Inr (Some d))"
    using created_at_absent[of el] extract_element_too_old[of el "clock el" st username]
    by blast
  have 7: "\<forall>p r. time_elements el = Inr (Inr (Some p) # r) \<and>
         (p = Unparsable \<or> (\<exists>t. p = Parsed (Naive t))) \<longrightarrow>
         (\<forall>ids d. snd (extract_element username st ids el) \<noteq> Inr (Some d))"
  proof (intro allI impI, elim conjE)
    fix p r ids d
    assume "time_elements el = Inr (Inr (Some p) # r)"
      "p = Unparsable \<or> (\<exists>t. p = Parsed (Naive t))"
    from created_at_bad[OF this]
    have "created_at_of el = Inl ValueError \<or> (\<exists>t. created_at_of el = Inr (Naive t))" .
    then show "snd (extract_element username st ids el) \<noteq> Inr (Some d)"
      by (rule extract_element_unstamped)
  qed
  have 8: "time_elements el = Inr [] \<or> (\<exists>r. time_elements el = Inr (Inr None # r))
        \<longrightarrow> created_at_of el = Inr (Aware (clock el))"
    by (auto simp: created_at_of_def)
  have 9: "\<forall>t. created_at_of el = Inr (Aware t) \<and> t < st \<longrightarrow>
        (\<forall>tweet_url tweet_id d.
           extract_fields username st el tweet_url tweet_id \<noteq> Inr (Some d))"
    by (auto simp: extract_fields_def split: prod.splits sum.splits)
  show ?thesis
    by (intro conjI 1 2 3 4 5 6 7 8 9)
qed

lemma stocked_from_runs: "cache_from_runs {(24, 50)} stocked_client"
  by (auto simp: cache_from_runs_def stocked_client_def in_window_def build_tweet_data_def
           split: if_splits)

lemma stocked_lookup:
  "cache_lookup stocked_client 24 2000
     = Some [''u'' \<mapsto> [build_tweet_data ''1'' [] 100 [] ''https://twitter.com/u/status/1''
                          False None]]"
  by (simp add: cache_lookup_def stocked_client_def cache_ttl_minutes_def seconds_def)

lemma single_world_run:
  "fst (snd (get_recent_tweets (logged_in_client [''u'']) 24 1000 1000 single_world))
     = Inr [''u'' \<mapsto> [build_tweet_data ''1'' [] 100 [] ''https://twitter.com/u/status/1''
                          False None]]"
proof -
  let ?c = "logged_in_client [''u'']"
  have m: "cache_lookup ?c 24 1000 = None" "twitter_users ?c = [''u'']"
    by (simp_all add: cache_lookup_def logged_in_client_def)
  have lu: "lower ''u'' = ''u''" by code_simp
  have g: "fst (get_user_tweets ?c (single_world 0) ''u'' (- 86399999000))
             = [build_tweet_data ''1'' [] 100 [] ''https://twitter.com/u/status/1'' False None]"
    using plain_run_from[of "- 86399999000" "[''u'']" "''u''"]
    by (simp add: single_world_def build_tweet_data_def)
  have q: "quit_outcome (single_world 0) = None"
    by (simp add: single_world_def open_page_def)
  have t: "user_task ?c (single_world 0) ''u'' (- 86399999000)
             = (Inr [build_tweet_data ''1'' [] 100 [] ''https://twitter.com/u/status/1''
                       False None],
                snd (get_user_tweets ?c (single_world 0) ''u'' (- 86399999000)))"
    using user_task_quiet[of "single_world 0" ?c "''u''" "- 86399999000"] q g by simp
  show ?thesis
    by (simp add: get_recent_tweets_def collect_and_store_def start_time_24 m t
          empty_by_user_def lu)
qed

theorem C2_window_witness:
  "get_recent_tweets stocked_client 24 2000 2000 single_world
     = (stocked_client,
        Inr [''u'' \<mapsto> [build_tweet_data ''1'' [] 100 [] ''https://twitter.com/u/status/1''
                          False None]], [])
   \<and> in_window 50
        (build_tweet_data ''1'' [] 100 [] ''https://twitter.com/u/status/1'' False None)
   \<and> in_window (- 86399999000)
        (build_tweet_data ''1'' [] 100 [] ''https://twitter.com/u/status/1'' False None)
   \<and> map_of (build_tweet_data ''1'' [] 100 [] ''https://twitter.com/u/status/1'' False None)
        ''created_at'' = Some (DateTime 100)
   \<and> map_of (build_tweet_data ''9'' [] 70 [] ''https://twitter.com/u/status/9'' False None)
        ''created_at'' = Some (DateTime 70)
   \<and> snd (extract_element ''u'' 50 {} (plain_tweet ''https://twitter.com/u/status/1'' 5))
       \<noteq> Inr (Some (build_tweet_data ''1'' [] 5 [] ''https://twitter.com/u/status/1''
                        False None))
   \<and> snd (extract_element ''u'' 50 {} (untimed_tweet ''https://twitter.com/u/status/9'' 7))
       \<noteq> Inr (Some (build_tweet_data ''9'' [] 7 [] ''https://twitter.com/u/status/9''
                        False None))
   \<and> created_at_of (untimed_tweet ''https://twitter.com/u/status/9'' 7) = Inr (Aware 7)"
proof -
  let ?d = "build_tweet_data ''1'' [] 100 [] ''https://twitter.com/u/status/1'' False None"
  let ?d9 = "build_tweet_data ''9'' [] 70 [] ''https://twitter.com/u/status/9'' False None"
  let ?b = "open_page [plain_tweet ''https://twitter.com/u/status/1'' 100] idle_rounds"
  let ?el = "plain_tweet ''https://twitter.com/u/status/1'' 100"
  let ?old = "plain_tweet ''https://twitter.com/u/status/1'' 5"
  let ?un = "untimed_tweet ''https://twitter.com/u/status/9'' 7"
  let ?un70 = "untimed_tweet ''https://twitter.com/u/status/9'' 70"
  txt \<open>served from the cache\<close>
  note tA = C2_window[where runs = "{(24, 50)}" and self = stocked_client and now = 2000
      and hours = 24 and ct = 2000 and world = single_world and b = ?b and username = "''u''"
      and st = 50 and ids = "{}" and el = ?el and ids' = "{''1''}" and item = ?d]
  from tA[THEN conjunct1] stocked_from_runs stocked_lookup
  have hit: "get_recent_tweets stocked_client 24 2000 2000 single_world
               = (stocked_client, Inr [''u'' \<mapsto> [?d]], [])"
    and "\<exists>start_time. (24, start_time) \<in> {(24, 50 :: int)} \<and>
           (\<forall>k ts. [''u'' \<mapsto> [?d]] k = Some ts \<longrightarrow> (\<forall>d \<in> set ts. in_window start_time d))"
    by blast+
  then have "\<forall>k ts. [''u'' \<mapsto> [?d]] k = Some ts \<longrightarrow> (\<forall>d \<in> set ts. in_window 50 d)"
    by simp
  from this[rule_format, of "''u''" "[?d]" ?d] have w50: "in_window 50 ?d" by simp
  txt \<open>collected after a miss\<close>
  note tB = C2_window[where runs = "{}" and self = "logged_in_client [''u'']" and now = 1000
      and hours = 24 and ct = 1000 and world = single_world and b = ?b and username = "''u''"
      and st = 50 and ids = "{}" and el = ?el and ids' = "{''1''}" and item = ?d]
  have miss: "cache_lookup (logged_in_client [''u'']) 24 1000 = None"
    by (simp add: cache_lookup_def logged_in_client_def)
  from tB[THEN conjunct2, THEN conjunct1] miss single_world_run start_time_24
  have "\<forall>k ts. [''u'' \<mapsto> [?d]] k = Some ts \<longrightarrow> (\<forall>d \<in> set ts. in_window (- 86399999000) d)"
    by blast
  from this[rule_format, of "''u''" "[?d]" ?d] have wrun: "in_window (- 86399999000) ?d"
    by simp
  txt \<open>returned by a task\<close>
  have mem: "?d \<in> set (fst (get_user_tweets (logged_in_client [''u'']) ?b ''u'' 50))"
    using plain_run_from[of 50 "[''u'']" "''u''"] by (simp add: build_tweet_data_def)
  from tB[THEN conjunct2, THEN conjunct2, THEN conjunct1] mem
  have "in_window 50 ?d" by blast
  txt \<open>the timestamp of an item is the attribute of its container\<close>
  have e: "extract_element ''u'' 50 {} ?el = ({''1''}, Inr (Some ?d))"
    by (simp add: extract_plain_tweet is_digit_def)
  have te: "time_elements ?el = Inr (Inr (Some (Parsed (Aware 100))) # [])"
    by (simp add: plain_tweet_def)
  from tA[THEN conjunct2, THEN conjunct2, THEN conjunct2, THEN conjunct1] e te
  have stamp: "map_of ?d ''created_at'' = Some (DateTime 100)" by blast
  txt \<open>or the clock when there is none\<close>
  note tE = C2_window[where runs = "{}" and self = "logged_in_client [''u'']" and now = 1000
      and hours = 24 and ct = 1000 and world = single_world and b = ?b and username = "''u''"
      and st = 50 and ids = "{}" and el = ?un70 and ids' = "{''9''}" and item = ?d9]
  have e9: "extract_element ''u'' 50 {} ?un70 = ({''9''}, Inr (Some ?d9))"
    by (simp add: extract_element_def extract_fields_def untimed_tweet_def plain_tweet_def
          check_retweet_def tweet_text_of_def created_at_of_def image_urls_of_def is_digit_def)
  have t9: "time_elements ?un70 = Inr []" "clock ?un70 = 70"
    by (simp_all add: untimed_tweet_def plain_tweet_def)
  from tE[THEN conjunct2, THEN conjunct2, THEN conjunct2, THEN conjunct1] e9 t9(1)
  have "map_of ?d9 ''created_at'' = Some (DateTime (clock ?un70))" by blast
  with t9(2) have stamp9: "map_of ?d9 ''created_at'' = Some (DateTime 70)" by simp
  txt \<open>containers before the window yield nothing\<close>
  note tC = C2_window[where runs = "{}" and self = "logged_in_client [''u'']" and now = 1000
      and hours = 24 and ct = 1000 and world = single_world and b = ?b and username = "''u''"
      and st = 50 and ids = "{}" and el = ?old and ids' = "{''1''}" and item = ?d]
  have to: "time_elements ?old = Inr (Inr (Some (Parsed (Aware 5))) # []) \<and> (5 :: int) < 50"
    by (simp add: plain_tweet_def)
  from tC[THEN conjunct2, THEN conjunct2, THEN conjunct2, THEN conjunct2, THEN conjunct1] to
  have old: "snd (extract_element ''u'' 50 {} ?old)
       \<noteq> Inr (Some (build_tweet_data ''1'' [] 5 [] ''https://twitter.com/u/status/1''
                        False None))" by blast
  note tD = C2_window[where runs = "{}" and self = "logged_in_client [''u'']" and now = 1000
      and hours = 24 and ct = 1000 and world = single_world and b = ?b and username = "''u''"
      and st = 50 and ids = "{}" and el = ?un and ids' = "{''9''}" and item = ?d9]
  have tu: "time_elements ?un = Inr []" "clock ?un < 50" "clock ?un = 7"
    by (simp_all add: untimed_tweet_def plain_tweet_def)
  from tD[THEN conjunct2, THEN conjunct2, THEN conjunct2, THEN conjunct2, THEN conjunct2,
          THEN conjunct1] tu(1,2)
  have un: "snd (extract_element ''u'' 50 {} ?un)
       \<noteq> Inr (Some (build_tweet_data ''9'' [] 7 [] ''https://twitter.com/u/status/9''
                        False None))" by blast
  from tD[THEN conjunct2, THEN conjunct2, THEN conjunct2, THEN conjunct2, THEN conjunct2,
          THEN conjunct2, THEN conjunct2, THEN conjunct1] tu(1)
  have "created_at_of ?un = Inr (Aware (clock ?un))" by blast
  with tu(3) have ca: "created_at_of ?un = Inr (Aware 7)" by simp
  from hit w50 wrun stamp stamp9 old un ca show ?thesis by blast
qed

section \<open>The cache\<close>










section \<open>The keys of an item\<close>

lemma check_retweet_key:
  "(case snd (check_retweet username el) of
      Some a \<Rightarrow> fst (check_retweet username el) \<and> a \<noteq> [] | None \<Rightarrow> False)
   \<longleftrightarrow> (\<exists>author_links blocks author_href.
          user_name_blocks el = Inr (Inr author_links # blocks) \<and>
          2 \<le> length author_links \<and> author_links ! 1 = Inr (Some author_href) \<and>
          lower (last_segment author_href) \<noteq> lower username \<and>
          last_segment author_href \<noteq> [])"
proof (cases "\<exists>author_links blocks author_href.
          user_name_blocks el = Inr (Inr author_links # blocks) \<and>
          2 \<le> length author_links \<and> author_links ! 1 = Inr (Some author_href)")
  case True
  then obtain author_links blocks author_href where
    h: "user_name_blocks el = Inr (Inr author_links # blocks)"
       "2 \<le> length author_links" "author_links ! 1 = Inr (Some author_href)" by blast
  from check_retweet_handle[OF h, of username] h show ?thesis
    by (auto simp: lower_def)
next
  case False
  from check_retweet_no_handle[OF False, of username] False show ?thesis by auto
qed

lemma build_keys_if:
  "map fst (build_tweet_data i t c im u r oa) =
     [''id'', ''text'', ''created_at'', ''image_urls'', ''url'', ''is_retweet'']
     @ (if (case oa of Some a \<Rightarrow> r \<and> a \<noteq> [] | None \<Rightarrow> False)
        then [''original_author''] else [])"
  by (simp add: build_tweet_data_def split: option.splits)

lemma build_repost_key:
  "map fst (build_tweet_data i t c im u r oa) =
     [''id'', ''text'', ''created_at'', ''image_urls'', ''url'', ''is_retweet'',
      ''original_author'']
   \<longleftrightarrow> map_of (build_tweet_data i t c im u r oa) ''is_retweet'' = Some (Bool True) \<and>
       (\<exists>a. a \<noteq> [] \<and>
          map_of (build_tweet_data i t c im u r oa) ''original_author'' = Some (Str a))"
  by (auto simp: build_tweet_data_def split: option.splits)

lemma extract_element_keys:
  assumes "extract_element username start_time ids el = (ids', Inr (Some d))"
  shows "map fst d =
     [''id'', ''text'', ''created_at'', ''image_urls'', ''url'', ''is_retweet'']
     @ (if \<exists>author_links blocks author_href.
             user_name_blocks el = Inr (Inr author_links # blocks) \<and>
             2 \<le> length author_links \<and> author_links ! 1 = Inr (Some author_href) \<and>
             lower (last_segment author_href) \<noteq> lower username \<and>
             last_segment author_href \<noteq> []
        then [''original_author''] else [])"
proof -
  from extract_element_fields[OF assms] obtain i t c u where
    d: "d = build_tweet_data i t c (image_urls_of el) u
              (fst (check_retweet username el)) (snd (check_retweet username el))"
    by blast
  show ?thesis
    unfolding d build_keys_if check_retweet_key ..
qed

text \<open>
  C8 (amended). Every item a task returns has no \<open>author\<close> key; its keys are \<open>id\<close>,
  \<open>text\<close>, \<open>created_at\<close>, \<open>image_urls\<close>, \<open>url\<close> and \<open>is_retweet\<close>, in this order,
  followed by \<open>original_author\<close> exactly when the item is a repost with a non-empty
  original author: exactly when the second link of the first \<open>User-Name\<close> block of its
  container has an \<open>href\<close> whose last path segment is not empty and differs,
  lower-cased, from the lower-cased queried handle.
\<close>

theorem C8_item_keys:
  "(d \<in> set (fst (get_user_tweets self b username start_time)) \<longrightarrow>
     map_of d ''author'' = None
     \<and> (map fst d = [''id'', ''text'', ''created_at'', ''image_urls'', ''url'', ''is_retweet'']
        \<or> map fst d = [''id'', ''text'', ''created_at'', ''image_urls'', ''url'', ''is_retweet'',
                        ''original_author''])
     \<and> (\<exists>tweet_id tweet_text created_at image_urls tweet_url is_retweet.
           map_of d ''id'' = Some (Str tweet_id) \<and>
           map_of d ''text'' = Some (Str tweet_text) \<and>
           map_of d ''created_at'' = Some (DateTime created_at) \<and>
           map_of d ''image_urls'' = Some (StrList image_urls) \<and>
           map_of d ''url'' = Some (Str tweet_url) \<and>
           map_of d ''is_retweet'' = Some (Bool is_retweet))
     \<and> (map fst d = [''id'', ''text'', ''created_at'', ''image_urls'', ''url'', ''is_retweet'',
                      ''original_author'']
        \<longleftrightarrow> map_of d ''is_retweet'' = Some (Bool True) \<and>
            (\<exists>a. a \<noteq> [] \<and> map_of d ''original_author'' = Some (Str a)))
     \<and> (\<exists>k els el ids0 ids1. batch b k = Inr els \<and> el \<in> set els \<and>
           extract_element username start_time ids0 el = (ids1, Inr (Some d))))
   \<and> (extract_element username start_time ids el = (ids', Inr (Some d')) \<longrightarrow>
        map fst d' =
          [''id'', ''text'', ''created_at'', ''image_urls'', ''url'', ''is_retweet'']
          @ (if \<exists>author_links blocks author_href.
                  user_name_blocks el = Inr (Inr author_links # blocks) \<and>
                  2 \<le> length author_links \<and> author_links ! 1 = Inr (Some author_href) \<and>
                  lower (last_segment author_href) \<noteq> lower username \<and>
                  last_segment author_href \<noteq> []
             then [''original_author''] else []))"
proof (intro conjI impI)
  assume "d \<in> set (fst (get_user_tweets self b username start_time))"
  from get_user_tweets_source[OF this] obtain k els el0 ids0 ids1 where
    src: "batch b k = Inr els" "el0 \<in> set els"
    "extract_element username start_time ids0 el0 = (ids1, Inr (Some d))" by blast
  from extract_element_fields[OF src(3)] obtain i t c u where
    d: "d = build_tweet_data i t c (image_urls_of el0) u
              (fst (check_retweet username el0)) (snd (check_retweet username el0))"
    by blast
  show "map_of d ''author'' = None" unfolding d by (rule build_author)
  show "map fst d = [''id'', ''text'', ''created_at'', ''image_urls'', ''url'', ''is_retweet'']
     \<or> map fst d = [''id'', ''text'', ''created_at'', ''image_urls'', ''url'', ''is_retweet'',
                     ''original_author'']"
    unfolding d by (simp add: build_keys split: option.splits)
  have "map_of d ''id'' = Some (Str i) \<and>
           map_of d ''text'' = Some (Str t) \<and>
           map_of d ''created_at'' = Some (DateTime c) \<and>
           map_of d ''image_urls'' = Some (StrList (image_urls_of el0)) \<and>
           map_of d ''url'' = Some (Str u) \<and>
           map_of d ''is_retweet'' = Some (Bool (fst (check_retweet username el0)))"
    unfolding d by (simp add: build_tweet_data_def)
  then show "\<exists>tweet_id tweet_text created_at image_urls tweet_url is_retweet.
           map_of d ''id'' = Some (Str tweet_id) \<and>
           map_of d ''text'' = Some (Str tweet_text) \<and>
           map_of d ''created_at'' = Some (DateTime created_at) \<and>
           map_of d ''image_urls'' = Some (StrList image_urls) \<and>
           map_of d ''url'' = Some (Str tweet_url) \<and>
           map_of d ''is_retweet'' = Some (Bool is_retweet)"
    by blast
  show "map fst d = [''id'', ''text'', ''created_at'', ''image_urls'', ''url'', ''is_retweet'',
                      ''original_author'']
        \<longleftrightarrow> map_of d ''is_retweet'' = Some (Bool True) \<and>
            (\<exists>a. a \<noteq> [] \<and> map_of d ''original_author'' = Some (Str a))"
    unfolding d by (rule build_repost_key)
  from src show "\<exists>k els el ids0 ids1. batch b k = Inr els \<and> el \<in> set els \<and>
           extract_element username start_time ids0 el = (ids1, Inr (Some d))"
    by blast
next
  assume "extract_element username start_time ids el = (ids', Inr (Some d'))"
  then show "map fst d' =
          [''id'', ''text'', ''created_at'', ''image_urls'', ''url'', ''is_retweet'']
          @ (if \<exists>author_links blocks author_href.
                  user_name_blocks el = Inr (Inr author_links # blocks) \<and>
                  2 \<le> length author_links \<and> author_links ! 1 = Inr (Some author_href) \<and>
                  lower (last_segment author_href) \<noteq> lower username \<and>
                  last_segment author_href \<noteq> []
             then [''original_author''] else [])"
    by (rule extract_element_keys)
qed

text \<open>
  C8 as stated fails: the item returned for a plain container has no \<open>author\<close> key.
\<close>

theorem C8_counterexample:
  "fst (get_user_tweets (logged_in_client [''u''])
          (open_page [plain_tweet ''https://twitter.com/u/status/1'' 100] idle_rounds) ''u'' 50)
     = [[(''id'', Str ''1''), (''text'', Str []), (''created_at'', DateTime 100),
         (''image_urls'', StrList []), (''url'', Str ''https://twitter.com/u/status/1''),
         (''is_retweet'', Bool False)]]
   \<and> map_of [(''id'', Str ''1''), (''text'', Str []), (''created_at'', DateTime 100),
         (''image_urls'', StrList []), (''url'', Str ''https://twitter.com/u/status/1''),
         (''is_retweet'', Bool False)] ''author'' = None"
  by (simp add: plain_run_from)

theorem C8_item_keys_witness:
  "[(''id'', Str ''1''), (''text'', Str []), (''created_at'', DateTime 100),
    (''image_urls'', StrList []), (''url'', Str ''https://twitter.com/u/status/1''),
    (''is_retweet'', Bool False)]
     \<in> set (fst (get_user_tweets (logged_in_client [''u''])
          (open_page [plain_tweet ''https://twitter.com/u/status/1'' 100] idle_rounds) ''u'' 50))
   \<and> map_of [(''id'', Str ''1''), (''text'', Str []), (''created_at'', DateTime 100),
         (''image_urls'', StrList []), (''url'', Str ''https://twitter.com/u/status/1''),
         (''is_retweet'', Bool False)] ''author'' = None
   \<and> map fst [(''id'', Str ''7''), (''text'', Str []), (''created_at'', DateTime 100),
         (''image_urls'', StrList []), (''url'', Str ''https://twitter.com/Bob/status/7''),
         (''is_retweet'', Bool True), (''original_author'', Str ''bob'')]
       = [''id'', ''text'', ''created_at'', ''image_urls'', ''url'', ''is_retweet'']
         @ [''original_author'']"
proof -
  let ?d = "[(''id'', Str ''1''), (''text'', Str []), (''created_at'', DateTime 100),
    (''image_urls'', StrList []), (''url'', Str ''https://twitter.com/u/status/1''),
    (''is_retweet'', Bool False)]"
  let ?r = "[(''id'', Str ''7''), (''text'', Str []), (''created_at'', DateTime 100),
         (''image_urls'', StrList []), (''url'', Str ''https://twitter.com/Bob/status/7''),
         (''is_retweet'', Bool True), (''original_author'', Str ''bob'')]"
  let ?el = "authored_tweet ''https://twitter.com/Bob/status/7'' ''https://twitter.com/Bob'' 100"
  note t = C8_item_keys[where d = ?d and self = "logged_in_client [''u'']"
      and b = "open_page [plain_tweet ''https://twitter.com/u/status/1'' 100] idle_rounds"
      and username = "''u''" and start_time = 50]
  have h: "?d \<in> set (fst (get_user_tweets (logged_in_client [''u''])
          (open_page [plain_tweet ''https://twitter.com/u/status/1'' 100] idle_rounds) ''u'' 50))"
    by (simp add: plain_run_from)
  from t[THEN conjunct1] h have 1: "map_of ?d ''author'' = None" by blast
  note t2 = C8_item_keys[where username = "''alice''" and start_time = 50 and ids = "{}"
      and el = ?el and ids' = "{''7''}" and d' = ?r]
  have e: "extract_element ''alice'' 50 {} ?el = ({''7''}, Inr (Some ?r))"
    by (simp add: extract_authored_tweet status7 bob_handle build_tweet_data_def
          del: search_status_id.simps)
  have c: "\<exists>author_links blocks author_href.
             user_name_blocks ?el = Inr (Inr author_links # blocks) \<and>
             2 \<le> length author_links \<and> author_links ! 1 = Inr (Some author_href) \<and>
             lower (last_segment author_href) \<noteq> lower ''alice'' \<and>
             last_segment author_href \<noteq> []"
  proof (intro exI conjI)
    show "user_name_blocks ?el
            = Inr (Inr [Inr (Some ''https://twitter.com/Bob''),
                        Inr (Some ''https://twitter.com/Bob'')] # [])"
      by (simp add: authored_tweet_def plain_tweet_def)
    show "2 \<le> length [Inr (Some ''https://twitter.com/Bob'') :: attr,
                       Inr (Some ''https://twitter.com/Bob'')]" by simp
    show "[Inr (Some ''https://twitter.com/Bob'') :: attr,
           Inr (Some ''https://twitter.com/Bob'')] ! 1 = Inr (Some ''https://twitter.com/Bob'')"
      by simp
    show "lower (last_segment ''https://twitter.com/Bob'') \<noteq> lower ''alice''"
      by (simp add: bob_handle)
    show "last_segment ''https://twitter.com/Bob'' \<noteq> []" by (simp add: bob_handle)
  qed
  from t2[THEN conjunct2] e have "map fst ?r =
          [''id'', ''text'', ''created_at'', ''image_urls'', ''url'', ''is_retweet'']
          @ (if \<exists>author_links blocks author_href.
                  user_name_blocks ?el = Inr (Inr author_links # blocks) \<and>
                  2 \<le> length author_links \<and> author_links ! 1 = Inr (Some author_href) \<and>
                  lower (last_segment author_href) \<noteq> lower ''alice'' \<and>
                  last_segment author_href \<noteq> []
             then [''original_author''] else [])" by (rule mp)
  with c have 2: "map fst ?r =
          [''id'', ''text'', ''created_at'', ''image_urls'', ''url'', ''is_retweet'']
          @ [''original_author'']" by (simp only: if_True)
  from h 1 2 show ?thesis by blast
qed

end
